theory Spec2Isabelle
  imports Main "HOL-Library.Word"
begin

unbundle bit_operations_syntax

section \<open>SanitizerBinaryMetadata: constants and the feature catalog\<close>

type_synonym uint32 = "32 word"

definition kVersionBase :: uint32 where
  "kVersionBase = 1"

definition kVersionPtrSizeRel :: uint32 where
  "kVersionPtrSizeRel = push_bit 16 1"

definition kCtorDtorPriority :: int where
  "kCtorDtorPriority = 2"

text \<open>
  The feature bits and the section names are declared in the pass's header, which is not
  among the sources. They are taken as parameters: every function below that reads one of
  them receives the record \<open>K\<close>.
\<close>

record md_consts =
  kSanitizerBinaryMetadataAtomics :: uint32
  kSanitizerBinaryMetadataUAR :: uint32
  kSanitizerBinaryMetadataCoveredSection :: string
  kSanitizerBinaryMetadataAtomicsSection :: string

text \<open>
  Modelled from the spec: \<open>kSanitizerBinaryMetadataNone\<close>, the feature bit of the Coverage
  kind, is declared in the missing header; the data model gives it as 0 ("0 for Coverage
  which carries no dedicated bit").
\<close>

definition kSanitizerBinaryMetadataNone :: uint32 where
  "kSanitizerBinaryMetadataNone = 0"

text \<open>The two instances of \<open>MetadataInfo\<close>; no other can be constructed.\<close>

datatype MetadataInfo = MetadataInfo_Covered | MetadataInfo_Atomics

fun FunctionPrefix :: "MetadataInfo \<Rightarrow> string" where
  "FunctionPrefix MetadataInfo_Covered = ''__sanitizer_metadata_covered''"
| "FunctionPrefix MetadataInfo_Atomics = ''__sanitizer_metadata_atomics''"

fun SectionSuffix :: "md_consts \<Rightarrow> MetadataInfo \<Rightarrow> string" where
  "SectionSuffix K MetadataInfo_Covered = kSanitizerBinaryMetadataCoveredSection K"
| "SectionSuffix K MetadataInfo_Atomics = kSanitizerBinaryMetadataAtomicsSection K"

fun FeatureMask :: "md_consts \<Rightarrow> MetadataInfo \<Rightarrow> uint32" where
  "FeatureMask K MetadataInfo_Covered = kSanitizerBinaryMetadataNone"
| "FeatureMask K MetadataInfo_Atomics = kSanitizerBinaryMetadataAtomics K"

text \<open>
  \<open>MetadataInfoSet\<close> is a \<open>SetVector\<close>: a duplicate-free list in order of first insertion.
\<close>

type_synonym MetadataInfoSet = "MetadataInfo list"

definition SetVector_insert :: "'a \<Rightarrow> 'a list \<Rightarrow> 'a list" where
  "SetVector_insert x xs = (if x \<in> set xs then xs else xs @ [x])"

section \<open>Options and statistics\<close>

record SanitizerBinaryMetadataOptions =
  Covered :: bool
  Atomics :: bool
  UAR :: bool

text \<open>The three command-line flags \<open>ClEmitCovered\<close>, \<open>ClEmitAtomics\<close>, \<open>ClEmitUAR\<close>.\<close>

record cl_flags =
  ClEmitCovered :: bool
  ClEmitAtomics :: bool
  ClEmitUAR :: bool

definition transformOptionsFromCl ::
  "cl_flags \<Rightarrow> SanitizerBinaryMetadataOptions \<Rightarrow> SanitizerBinaryMetadataOptions" where
  "transformOptionsFromCl cl Opts =
     Opts\<lparr>Covered := Covered Opts \<or> ClEmitCovered cl,
          Atomics := Atomics Opts \<or> ClEmitAtomics cl,
          UAR := UAR Opts \<or> ClEmitUAR cl\<rparr>"

text \<open>
  The mutable state the pass threads through a module: the kind set \<open>MIS\<close> (a local of
  \<open>run\<close>, passed by reference) and the three statistics counters (unbounded here).
\<close>

record pass_state =
  MIS :: MetadataInfoSet
  NumMetadataCovered :: nat
  NumMetadataAtomics :: nat
  NumMetadataUAR :: nat

section \<open>The program representation read by the pass\<close>

text \<open>
  The IR classes are those of the host compiler. A value carries the answers of the queries
  the pass makes on it, and the list of its users (the use chain below a stack allocation,
  followed through address computations and casts, is a tree: each such user has a single
  pointer operand).
\<close>

datatype value_kind =
    NonInstruction
  | AllocaInst
  | LoadInst
  | StoreInst
  | GetElementPtrInst
  | BitCastInst
  | CallInst
  | OtherInst

datatype SyncScope = SingleThread | System | TargetScope nat

record called_function =
  isIntrinsic :: bool
  doesNotReturn :: bool
  getName :: string

type_synonym pcsections = "(string \<times> uint32 list) list"

record value_props =
  vid :: nat
  kind :: value_kind
  operands :: "nat list"
  isLifetimeStartOrEnd :: bool
  isDroppable :: bool
  getCalledFunction :: "called_function option"
  isTailCall :: bool
  mayReadOrWriteMemory :: bool
  getAtomicSyncScopeID :: "SyncScope option"
  MD_pcsections :: "pcsections option"

datatype val = Val (props: value_props) (users: "val list")

definition getOperand :: "value_props \<Rightarrow> nat \<Rightarrow> nat option" where
  "getOperand p n = (if n < length (operands p) then Some (operands p ! n) else None)"

definition setMetadata :: "val \<Rightarrow> pcsections \<Rightarrow> val" where
  "setMetadata I md = Val ((props I)\<lparr>MD_pcsections := Some md\<rparr>) (users I)"

section \<open>Use-after-return analysis\<close>

definition startswith :: "string \<Rightarrow> string \<Rightarrow> bool" where
  "startswith s p = (take (length p) s = p)"

definition isUARSafeCall :: "value_props \<Rightarrow> bool" where
  "isUARSafeCall CI =
     (case getCalledFunction CI of
        None \<Rightarrow> False
      | Some F \<Rightarrow>
          isIntrinsic F \<or> doesNotReturn F \<or>
          startswith (getName F) ''__asan_'' \<or>
          startswith (getName F) ''__hwsan_'' \<or>
          startswith (getName F) ''__ubsan_'' \<or>
          startswith (getName F) ''__msan_'' \<or>
          startswith (getName F) ''__tsan_'')"

text \<open>
  \<open>hasUseAfterReturnUnsafeUses V\<close> runs \<open>usersLoop\<close> over \<open>V.users()\<close>; the first argument of
  the loop is the identity of \<open>V\<close>, which the store check compares with operand 1.
\<close>

fun hasUseAfterReturnUnsafeUses :: "val \<Rightarrow> bool"
  and usersLoop :: "nat \<Rightarrow> val list \<Rightarrow> bool" where
  "hasUseAfterReturnUnsafeUses (Val p us) = usersLoop (vid p) us"
| "usersLoop V [] = False"
| "usersLoop V (Val q qs # rest) =
     (if kind q = NonInstruction then True
      else if isLifetimeStartOrEnd q \<or> isDroppable q then usersLoop V rest
      else if kind q = CallInst \<and> isUARSafeCall q then usersLoop V rest
      else if kind q = LoadInst then usersLoop V rest
      else if kind q = StoreInst \<and> getOperand q 1 = Some V then usersLoop V rest
      else if kind q = GetElementPtrInst then
        (if \<not> hasUseAfterReturnUnsafeUses (Val q qs) then usersLoop V rest else True)
      else if kind q = BitCastInst then
        (if \<not> hasUseAfterReturnUnsafeUses (Val q qs) then usersLoop V rest else True)
      else True)"

definition useAfterReturnUnsafe :: "val \<Rightarrow> bool" where
  "useAfterReturnUnsafe I =
     (if kind (props I) = AllocaInst then hasUseAfterReturnUnsafeUses I
      else if kind (props I) = CallInst then
        isTailCall (props I) \<and> \<not> isUARSafeCall (props I)
      else False)"

section \<open>The instruction classifier\<close>

definition getSectionName :: "string \<Rightarrow> string" where
  "getSectionName SectionSuffix' = SectionSuffix'"

definition runOn_Instruction ::
  "md_consts \<Rightarrow> SanitizerBinaryMetadataOptions \<Rightarrow> val \<Rightarrow> pass_state \<Rightarrow> uint32
     \<Rightarrow> val \<times> pass_state \<times> uint32 \<times> bool" where
  "runOn_Instruction K Options I st FeatureMask0 =
     (let FeatureMask1 =
            (if UAR Options \<and> FeatureMask0 AND kSanitizerBinaryMetadataUAR K = 0
             then (if useAfterReturnUnsafe I
                   then FeatureMask0 OR kSanitizerBinaryMetadataUAR K
                   else FeatureMask0)
             else FeatureMask0);
          (InstMetadata, st1, RequiresCovered) =
            (if Atomics Options \<and> mayReadOrWriteMemory (props I) then
               (case getAtomicSyncScopeID (props I) of
                  Some SSID \<Rightarrow>
                    if SSID \<noteq> SingleThread
                    then ([MetadataInfo_Atomics],
                          st\<lparr>NumMetadataAtomics := NumMetadataAtomics st + 1\<rparr>, True)
                    else ([], st, True)
                | None \<Rightarrow> ([], st, True))
             else ([], st, False))
      in if InstMetadata \<noteq> [] then
           (setMetadata I
              (map (\<lambda>MI. (getSectionName (SectionSuffix K MI), [])) InstMetadata),
            st1\<lparr>MIS := fold SetVector_insert InstMetadata (MIS st1)\<rparr>,
            FeatureMask1, RequiresCovered)
         else (I, st1, FeatureMask1, RequiresCovered))"

section \<open>The function aggregator\<close>

datatype LinkageTypes =
    ExternalLinkage
  | AvailableExternallyLinkage
  | LinkOnceAnyLinkage
  | LinkOnceODRLinkage
  | WeakAnyLinkage
  | WeakODRLinkage
  | AppendingLinkage
  | InternalLinkage
  | PrivateLinkage
  | ExternalWeakLinkage
  | CommonLinkage

text \<open>
  A function: its basic blocks (each a list of instructions; \<open>F.empty()\<close> is "no block"), the
  attribute and linkage the pass tests, and its own \<open>MD_pcsections\<close> attachment.
\<close>

record func =
  fname :: string
  blocks :: "val list list"
  hasDisableSanitizerInstrumentation :: bool
  getLinkage :: LinkageTypes
  isVarArg :: bool
  F_MD_pcsections :: "pcsections option"

definition getEnabledPerInstructionFeature ::
  "md_consts \<Rightarrow> SanitizerBinaryMetadataOptions \<Rightarrow> uint32" where
  "getEnabledPerInstructionFeature K Options =
     (let FeatureMask0 = 0
      in if Atomics Options then FeatureMask0 OR FeatureMask K MetadataInfo_Atomics
         else FeatureMask0)"

text \<open>The inner loop \<open>for (Instruction &I : BB)\<close>, with \<open>RequiresCovered |= runOn(I, ...)\<close>.\<close>

fun scanBlock ::
  "md_consts \<Rightarrow> SanitizerBinaryMetadataOptions \<Rightarrow> val list \<Rightarrow> pass_state \<Rightarrow> uint32 \<Rightarrow> bool
     \<Rightarrow> val list \<times> pass_state \<times> uint32 \<times> bool" where
  "scanBlock K Options [] st FM RC = ([], st, FM, RC)"
| "scanBlock K Options (I # rest) st FM RC =
     (case runOn_Instruction K Options I st FM of
        (I', st1, FM1, rc) \<Rightarrow>
          (case scanBlock K Options rest st1 FM1 (RC \<or> rc) of
             (rest', r) \<Rightarrow> (I' # rest', r)))"

text \<open>The outer loop \<open>for (BasicBlock &BB : F)\<close>.\<close>

fun scanBlocks ::
  "md_consts \<Rightarrow> SanitizerBinaryMetadataOptions \<Rightarrow> val list list \<Rightarrow> pass_state \<Rightarrow> uint32 \<Rightarrow> bool
     \<Rightarrow> val list list \<times> pass_state \<times> uint32 \<times> bool" where
  "scanBlocks K Options [] st FM RC = ([], st, FM, RC)"
| "scanBlocks K Options (BB # rest) st FM RC =
     (case scanBlock K Options BB st FM RC of
        (BB', st1, FM1, RC1) \<Rightarrow>
          (case scanBlocks K Options rest st1 FM1 RC1 of
             (rest', r) \<Rightarrow> (BB' # rest', r)))"

text \<open>
  The part of \<open>runOn(Function&)\<close> between the skip tests and the emission of the Coverage
  record: it leaves the scanned blocks, the state, the final \<open>FeatureMask\<close> and the final
  \<open>RequiresCovered\<close>.
\<close>

definition scanFunction ::
  "md_consts \<Rightarrow> SanitizerBinaryMetadataOptions \<Rightarrow> func \<Rightarrow> pass_state
     \<Rightarrow> val list list \<times> pass_state \<times> uint32 \<times> bool" where
  "scanFunction K Options F st =
     (let FeatureMask0 = getEnabledPerInstructionFeature K Options;
          (bbs, st1, FeatureMask1, RequiresCovered1) =
            (if FeatureMask0 \<noteq> 0 \<or> UAR Options
             then scanBlocks K Options (blocks F) st FeatureMask0 False
             else (blocks F, st, FeatureMask0, False));
          FeatureMask2 =
            (if isVarArg F then FeatureMask1 AND NOT (kSanitizerBinaryMetadataUAR K)
             else FeatureMask1)
      in if FeatureMask2 AND kSanitizerBinaryMetadataUAR K \<noteq> 0
         then (bbs, st1\<lparr>NumMetadataUAR := NumMetadataUAR st1 + 1\<rparr>, FeatureMask2, True)
         else (bbs, st1, FeatureMask2, RequiresCovered1))"

definition runOn_Function ::
  "md_consts \<Rightarrow> SanitizerBinaryMetadataOptions \<Rightarrow> func \<Rightarrow> pass_state \<Rightarrow> func \<times> pass_state" where
  "runOn_Function K Options F st =
     (if blocks F = [] then (F, st)
      else if hasDisableSanitizerInstrumentation F then (F, st)
      else if getLinkage F = AvailableExternallyLinkage then (F, st)
      else
        (case scanFunction K Options F st of
           (bbs, st1, FeatureMask1, RequiresCovered) \<Rightarrow>
             if Covered Options \<or> (FeatureMask1 \<noteq> 0 \<and> RequiresCovered) then
               (F\<lparr>blocks := bbs,
                  F_MD_pcsections :=
                    Some [(getSectionName (SectionSuffix K MetadataInfo_Covered),
                           [FeatureMask1])]\<rparr>,
                st1\<lparr>NumMetadataCovered := NumMetadataCovered st1 + 1,
                    MIS := SetVector_insert MetadataInfo_Covered (MIS st1)\<rparr>)
             else (F\<lparr>blocks := bbs\<rparr>, st1)))"

section \<open>The module driver and the registration emitter\<close>

datatype CodeModel = Tiny | Small | Kernel | Medium | Large

datatype VisibilityTypes = DefaultVisibility | HiddenVisibility | ProtectedVisibility

datatype ir_type = Int32Ty | Int8PtrTy | Int8PtrPtrTy

record global_variable =
  gv_name :: string
  gv_type :: ir_type
  gv_isConstant :: bool
  gv_linkage :: LinkageTypes
  gv_hasInitializer :: bool
  gv_visibility :: VisibilityTypes

datatype init_arg = ConstantInt32 uint32 | GlobalRef string

text \<open>
  A synthesized entry point: its name, the runtime callback it calls, the callback's
  parameter types and the arguments passed, and the COMDAT it is placed in (if any).
\<close>

record entry_point =
  ep_name :: string
  ep_initName :: string
  ep_initTypes :: "ir_type list"
  ep_initArgs :: "init_arg list"
  ep_comdat :: "string option"

record structor =
  st_priority :: int
  st_func :: string
  st_data :: "string option"

record ir_module =
  Functions :: "func list"
  getCodeModel :: "CodeModel option"
  isOSBinFormatELF :: bool
  supportsCOMDAT :: bool
  globals :: "global_variable list"
  entry_points :: "entry_point list"
  comdats :: "string list"
  global_ctors :: "structor list"
  global_dtors :: "structor list"

definition getVersion :: "ir_module \<Rightarrow> uint32" where
  "getVersion Mod =
     (let Version = kVersionBase
      in case getCodeModel Mod of
           Some CM \<Rightarrow> if CM = Medium \<or> CM = Large then Version OR kVersionPtrSizeRel else Version
         | None \<Rightarrow> Version)"

definition getSectionStart :: "string \<Rightarrow> string" where
  "getSectionStart SectionSuffix' = ''__start_'' @ SectionSuffix'"

definition getSectionEnd :: "string \<Rightarrow> string" where
  "getSectionEnd SectionSuffix' = ''__stop_'' @ SectionSuffix'"

definition getSectionMarker :: "ir_module \<Rightarrow> string \<Rightarrow> ir_type \<Rightarrow> ir_module \<times> global_variable" where
  "getSectionMarker Mod MarkerName Ty =
     (let Marker = \<lparr>gv_name = MarkerName, gv_type = Ty, gv_isConstant = False,
                     gv_linkage = ExternalWeakLinkage, gv_hasInitializer = False,
                     gv_visibility = HiddenVisibility\<rparr>
      in (Mod\<lparr>globals := globals Mod @ [Marker]\<rparr>, Marker))"

text \<open>
  Modelled from the spec: \<open>createSanitizerCtorAndInitFunctions\<close> is a helper of the module
  utilities, not among the sources. Per the emitter's description it synthesizes an entry
  point "populated with a call to the kind's external runtime function ... passing those
  three values"; the entry point is created in the module and returned.
\<close>

definition createSanitizerCtorAndInitFunctions ::
  "ir_module \<Rightarrow> string \<Rightarrow> string \<Rightarrow> ir_type list \<Rightarrow> init_arg list \<Rightarrow> entry_point" where
  "createSanitizerCtorAndInitFunctions Mod CtorName InitName InitArgTypes InitArgs =
     \<lparr>ep_name = CtorName, ep_initName = InitName, ep_initTypes = InitArgTypes,
      ep_initArgs = InitArgs, ep_comdat = None\<rparr>"

definition getOrInsertComdat :: "string list \<Rightarrow> string \<Rightarrow> string list" where
  "getOrInsertComdat cs Name = (if Name \<in> set cs then cs else cs @ [Name])"

text \<open>
  Modelled from the spec: \<open>appendToGlobalCtors\<close> and \<open>appendToGlobalDtors\<close> are helpers of
  the module utilities, not among the sources: "append the registration entry point to the
  module's global-constructor list and the deregistration entry point to the module's
  global-destructor list".
\<close>

definition appendToGlobalCtors :: "ir_module \<Rightarrow> string \<Rightarrow> int \<Rightarrow> string option \<Rightarrow> ir_module" where
  "appendToGlobalCtors Mod F Priority Data =
     Mod\<lparr>global_ctors := global_ctors Mod @ [\<lparr>st_priority = Priority, st_func = F, st_data = Data\<rparr>]\<rparr>"

definition appendToGlobalDtors :: "ir_module \<Rightarrow> string \<Rightarrow> int \<Rightarrow> string option \<Rightarrow> ir_module" where
  "appendToGlobalDtors Mod F Priority Data =
     Mod\<lparr>global_dtors := global_dtors Mod @ [\<lparr>st_priority = Priority, st_func = F, st_data = Data\<rparr>]\<rparr>"

text \<open>
  The body of the loop \<open>for (const MetadataInfo *MI : MIS)\<close> of \<open>run\<close>. The two entry points
  are entered into the module as they stand at the end of the iteration, after \<open>setComdat\<close>.
\<close>

definition emitKind :: "md_consts \<Rightarrow> uint32 \<Rightarrow> MetadataInfo \<Rightarrow> ir_module \<Rightarrow> ir_module" where
  "emitKind K Version MI Mod =
     (let InitTypes = [Int32Ty, Int8PtrPtrTy, Int8PtrPtrTy];
          (Mod1, Start) = getSectionMarker Mod (getSectionStart (SectionSuffix K MI)) Int8PtrTy;
          (Mod2, Stop) = getSectionMarker Mod1 (getSectionEnd (SectionSuffix K MI)) Int8PtrTy;
          InitArgs = [ConstantInt32 Version, GlobalRef (gv_name Start), GlobalRef (gv_name Stop)];
          Ctor = createSanitizerCtorAndInitFunctions Mod2
                   (FunctionPrefix MI @ ''.module_ctor'') (FunctionPrefix MI @ ''_add'')
                   InitTypes InitArgs;
          Dtor = createSanitizerCtorAndInitFunctions Mod2
                   (FunctionPrefix MI @ ''.module_dtor'') (FunctionPrefix MI @ ''_del'')
                   InitTypes InitArgs;
          (Ctor1, Dtor1, cs, CtorData, DtorData) =
            (if supportsCOMDAT Mod2 then
               (Ctor\<lparr>ep_comdat := Some (ep_name Ctor)\<rparr>,
                Dtor\<lparr>ep_comdat := Some (ep_name Dtor)\<rparr>,
                getOrInsertComdat (getOrInsertComdat (comdats Mod2) (ep_name Ctor)) (ep_name Dtor),
                Some (ep_name Ctor), Some (ep_name Dtor))
             else (Ctor, Dtor, comdats Mod2, None, None));
          Mod3 = Mod2\<lparr>entry_points := entry_points Mod2 @ [Ctor1, Dtor1], comdats := cs\<rparr>;
          Mod4 = appendToGlobalCtors Mod3 (ep_name Ctor1) kCtorDtorPriority CtorData
      in appendToGlobalDtors Mod4 (ep_name Dtor1) kCtorDtorPriority DtorData)"

text \<open>The loop \<open>for (Function &F : Mod) runOn(F, MIS)\<close>.\<close>

fun runOnFunctions ::
  "md_consts \<Rightarrow> SanitizerBinaryMetadataOptions \<Rightarrow> func list \<Rightarrow> pass_state
     \<Rightarrow> func list \<times> pass_state" where
  "runOnFunctions K Options [] st = ([], st)"
| "runOnFunctions K Options (F # rest) st =
     (case runOn_Function K Options F st of
        (F', st1) \<Rightarrow>
          (case runOnFunctions K Options rest st1 of
             (rest', st2) \<Rightarrow> (F' # rest', st2)))"

text \<open>
  \<open>SanitizerBinaryMetadata::run\<close>, on the options as stored by the constructor. The kind set
  starts empty; the statistics counters are those of the incoming state.
\<close>

definition run ::
  "md_consts \<Rightarrow> SanitizerBinaryMetadataOptions \<Rightarrow> ir_module \<Rightarrow> pass_state
     \<Rightarrow> bool \<times> ir_module \<times> pass_state" where
  "run K Options Mod st0 =
     (case runOnFunctions K Options (Functions Mod) (st0\<lparr>MIS := []\<rparr>) of
        (Fs, st) \<Rightarrow>
          (let Mod1 = Mod\<lparr>Functions := Fs\<rparr>
           in if MIS st = [] then (False, Mod1, st)
              else (True, fold (emitKind K (getVersion Mod1)) (MIS st) Mod1, st)))"

datatype PreservedAnalyses = PreservedAnalyses_all | PreservedAnalyses_none

datatype error = AssertELFOnly

text \<open>
  \<open>SanitizerBinaryMetadataPass::run\<close>: the constructor applies the command-line overrides
  and asserts an ELF target; then the pass runs. The assertion is compiled out when \<open>NDEBUG\<close>
  is defined (the first parameter): then the pass runs on every module, ELF or not.
\<close>

definition SanitizerBinaryMetadataPass_run ::
  "bool \<Rightarrow> md_consts \<Rightarrow> cl_flags \<Rightarrow> SanitizerBinaryMetadataOptions \<Rightarrow> ir_module \<Rightarrow> pass_state
     \<Rightarrow> error + (PreservedAnalyses \<times> ir_module \<times> pass_state)" where
  "SanitizerBinaryMetadataPass_run NDEBUG K cl Opts M st0 =
     (if \<not> NDEBUG \<and> \<not> isOSBinFormatELF M then Inl AssertELFOnly
      else
        (case run K (transformOptionsFromCl cl Opts) M st0 of
           (changed, M', st') \<Rightarrow>
             Inr (if changed then PreservedAnalyses_none else PreservedAnalyses_all, M', st')))"

section \<open>Notions used to state the properties\<close>

text \<open>
  The condition under which the classifier lists Atomics for an instruction: atomics
  tracking is on, the instruction may touch memory, and it is atomic with a scope other
  than single-thread.
\<close>

definition attachesAtomics :: "SanitizerBinaryMetadataOptions \<Rightarrow> val \<Rightarrow> bool" where
  "attachesAtomics Options I \<longleftrightarrow>
     Atomics Options \<and> mayReadOrWriteMemory (props I) \<and>
     (case getAtomicSyncScopeID (props I) of Some SSID \<Rightarrow> SSID \<noteq> SingleThread | None \<Rightarrow> False)"

text \<open>The instruction-level Atomics record: the Atomics section, with no payload.\<close>

definition atomicsRecord :: "md_consts \<Rightarrow> pcsections" where
  "atomicsRecord K = [(kSanitizerBinaryMetadataAtomicsSection K, [])]"

text \<open>The function-level Coverage record: the Coverage section, with the mask as payload.\<close>

definition coverageRecord :: "md_consts \<Rightarrow> uint32 \<Rightarrow> pcsections" where
  "coverageRecord K m = [(kSanitizerBinaryMetadataCoveredSection K, [m])]"

definition classified :: "md_consts \<Rightarrow> SanitizerBinaryMetadataOptions \<Rightarrow> val \<Rightarrow> val" where
  "classified K Options I =
     (if attachesAtomics Options I then setMetadata I (atomicsRecord K) else I)"

text \<open>The effect of scanning a list of instructions on the state and on the mask.\<close>

definition scanState :: "SanitizerBinaryMetadataOptions \<Rightarrow> val list \<Rightarrow> pass_state \<Rightarrow> pass_state" where
  "scanState Options Is st =
     (if \<exists>I \<in> set Is. attachesAtomics Options I
      then st\<lparr>MIS := SetVector_insert MetadataInfo_Atomics (MIS st),
              NumMetadataAtomics :=
                NumMetadataAtomics st + length (filter (attachesAtomics Options) Is)\<rparr>
      else st)"

definition scanMask :: "md_consts \<Rightarrow> SanitizerBinaryMetadataOptions \<Rightarrow> val list \<Rightarrow> uint32 \<Rightarrow> uint32" where
  "scanMask K Options Is FM =
     (if UAR Options \<and> FM AND kSanitizerBinaryMetadataUAR K = 0 \<and>
         (\<exists>I \<in> set Is. useAfterReturnUnsafe I)
      then FM OR kSanitizerBinaryMetadataUAR K else FM)"

text \<open>A function the aggregator does not skip.\<close>

definition processed :: "func \<Rightarrow> bool" where
  "processed F \<longleftrightarrow>
     blocks F \<noteq> [] \<and> \<not> hasDisableSanitizerInstrumentation F \<and>
     getLinkage F \<noteq> AvailableExternallyLinkage"




text \<open>What the emitter creates for one kind.\<close>

definition sectionMarkers :: "md_consts \<Rightarrow> MetadataInfo \<Rightarrow> global_variable list" where
  "sectionMarkers K MI =
     [\<lparr>gv_name = ''__start_'' @ SectionSuffix K MI, gv_type = Int8PtrTy, gv_isConstant = False,
       gv_linkage = ExternalWeakLinkage, gv_hasInitializer = False,
       gv_visibility = HiddenVisibility\<rparr>,
      \<lparr>gv_name = ''__stop_'' @ SectionSuffix K MI, gv_type = Int8PtrTy, gv_isConstant = False,
       gv_linkage = ExternalWeakLinkage, gv_hasInitializer = False,
       gv_visibility = HiddenVisibility\<rparr>]"

definition registrationArgs :: "md_consts \<Rightarrow> uint32 \<Rightarrow> MetadataInfo \<Rightarrow> init_arg list" where
  "registrationArgs K Version MI =
     [ConstantInt32 Version, GlobalRef (''__start_'' @ SectionSuffix K MI),
      GlobalRef (''__stop_'' @ SectionSuffix K MI)]"

definition registrationPair ::
  "md_consts \<Rightarrow> uint32 \<Rightarrow> bool \<Rightarrow> MetadataInfo \<Rightarrow> entry_point list" where
  "registrationPair K Version comdat MI =
     [\<lparr>ep_name = FunctionPrefix MI @ ''.module_ctor'', ep_initName = FunctionPrefix MI @ ''_add'',
       ep_initTypes = [Int32Ty, Int8PtrPtrTy, Int8PtrPtrTy],
       ep_initArgs = registrationArgs K Version MI,
       ep_comdat = (if comdat then Some (FunctionPrefix MI @ ''.module_ctor'') else None)\<rparr>,
      \<lparr>ep_name = FunctionPrefix MI @ ''.module_dtor'', ep_initName = FunctionPrefix MI @ ''_del'',
       ep_initTypes = [Int32Ty, Int8PtrPtrTy, Int8PtrPtrTy],
       ep_initArgs = registrationArgs K Version MI,
       ep_comdat = (if comdat then Some (FunctionPrefix MI @ ''.module_dtor'') else None)\<rparr>]"

definition ctorEntry :: "bool \<Rightarrow> MetadataInfo \<Rightarrow> structor" where
  "ctorEntry comdat MI =
     \<lparr>st_priority = kCtorDtorPriority, st_func = FunctionPrefix MI @ ''.module_ctor'',
      st_data = (if comdat then Some (FunctionPrefix MI @ ''.module_ctor'') else None)\<rparr>"

definition dtorEntry :: "bool \<Rightarrow> MetadataInfo \<Rightarrow> structor" where
  "dtorEntry comdat MI =
     \<lparr>st_priority = kCtorDtorPriority, st_func = FunctionPrefix MI @ ''.module_dtor'',
      st_data = (if comdat then Some (FunctionPrefix MI @ ''.module_dtor'') else None)\<rparr>"

text \<open>
  The order in which the entries of a module's constructor and destructor lists are run is
  the IR's, not the pass's: constructors in ascending order of priority (lowest first),
  destructors in descending order (highest first). So a constructor entry is placed after the
  default-priority constructors when its priority is not below the default priority, and a
  destructor entry is placed after the default-priority destructors when its priority is not
  above it. The default priority is a parameter here (65535 for the static initializers and
  finalizers the front ends emit).
\<close>

definition ctorPlacedAfterDefault :: "int \<Rightarrow> structor \<Rightarrow> bool" where
  "ctorPlacedAfterDefault DefaultPriority e \<longleftrightarrow> DefaultPriority \<le> st_priority e"

definition dtorPlacedAfterDefault :: "int \<Rightarrow> structor \<Rightarrow> bool" where
  "dtorPlacedAfterDefault DefaultPriority e \<longleftrightarrow> st_priority e \<le> DefaultPriority"

section \<open>Example inputs\<close>

text \<open>
  An instance of the header's constants, with two distinct single bits, used to evaluate the
  pass on concrete inputs.
\<close>

definition example_consts :: md_consts where
  "example_consts =
     \<lparr>kSanitizerBinaryMetadataAtomics = 1, kSanitizerBinaryMetadataUAR = 2,
      kSanitizerBinaryMetadataCoveredSection = ''sanmd_covered'',
      kSanitizerBinaryMetadataAtomicsSection = ''sanmd_atomics''\<rparr>"

definition plain_inst :: value_props where
  "plain_inst =
     \<lparr>vid = 0, kind = OtherInst, operands = [], isLifetimeStartOrEnd = False,
      isDroppable = False, getCalledFunction = None, isTailCall = False,
      mayReadOrWriteMemory = False, getAtomicSyncScopeID = None, MD_pcsections = None\<rparr>"

text \<open>\<open>%v = load atomic i32, ptr %p seq_cst\<close> (system scope), a plain load, and \<open>ret\<close>.\<close>

definition atomic_load :: val where
  "atomic_load =
     Val (plain_inst\<lparr>vid := 1, kind := LoadInst, operands := [7],
            mayReadOrWriteMemory := True, getAtomicSyncScopeID := Some System\<rparr>) []"

definition plain_load :: val where
  "plain_load =
     Val (plain_inst\<lparr>vid := 3, kind := LoadInst, operands := [7],
            mayReadOrWriteMemory := True\<rparr>) []"

definition ret_inst :: val where
  "ret_inst = Val (plain_inst\<lparr>vid := 2\<rparr>) []"

text \<open>
  \<open>%a = alloca\<close> whose address is stored to a global (\<open>store ptr %a, ptr @g\<close>: the allocation
  is operand 0), and \<open>%b = alloca\<close> that is only stored to, loaded from through a \<open>getelementptr\<close>
  and passed to \<open>__asan_poison\<close>.
\<close>

definition escaping_alloca :: val where
  "escaping_alloca =
     Val (plain_inst\<lparr>vid := 10, kind := AllocaInst\<rparr>)
       [Val (plain_inst\<lparr>vid := 11, kind := StoreInst, operands := [10, 8],
               mayReadOrWriteMemory := True\<rparr>) []]"

definition safe_alloca :: val where
  "safe_alloca =
     Val (plain_inst\<lparr>vid := 20, kind := AllocaInst\<rparr>)
       [Val (plain_inst\<lparr>vid := 21, kind := StoreInst, operands := [9, 20],
               mayReadOrWriteMemory := True\<rparr>) [],
        Val (plain_inst\<lparr>vid := 22, kind := GetElementPtrInst, operands := [20]\<rparr>)
          [Val (plain_inst\<lparr>vid := 23, kind := LoadInst, operands := [22],
                  mayReadOrWriteMemory := True\<rparr>) []],
        Val (plain_inst\<lparr>vid := 24, kind := CallInst, operands := [20],
               getCalledFunction :=
                 Some \<lparr>isIntrinsic = False, doesNotReturn = False, getName = ''__asan_poison''\<rparr>,
               mayReadOrWriteMemory := True\<rparr>) []]"

definition example_function :: "val list \<Rightarrow> func" where
  "example_function Is =
     \<lparr>fname = ''f'', blocks = [Is], hasDisableSanitizerInstrumentation = False,
      getLinkage = ExternalLinkage, isVarArg = False, F_MD_pcsections = None\<rparr>"

definition example_module :: "func list \<Rightarrow> ir_module" where
  "example_module Fs =
     \<lparr>Functions = Fs, getCodeModel = None, isOSBinFormatELF = True, supportsCOMDAT = True,
      globals = [], entry_points = [], comdats = [], global_ctors = [], global_dtors = []\<rparr>"

definition initial_state :: pass_state where
  "initial_state =
     \<lparr>MIS = [], NumMetadataCovered = 0, NumMetadataAtomics = 0, NumMetadataUAR = 0\<rparr>"

definition only_atomics :: SanitizerBinaryMetadataOptions where
  "only_atomics = \<lparr>Covered = False, Atomics = True, UAR = False\<rparr>"

definition only_uar :: SanitizerBinaryMetadataOptions where
  "only_uar = \<lparr>Covered = False, Atomics = False, UAR = True\<rparr>"

definition no_cl_flags :: cl_flags where
  "no_cl_flags = \<lparr>ClEmitCovered = False, ClEmitAtomics = False, ClEmitUAR = False\<rparr>"

section \<open>Facts about the scan loops\<close>


lemma runOn_Instruction_eq:
  "runOn_Instruction K Options I st FM =
     (if attachesAtomics Options I then setMetadata I (atomicsRecord K) else I,
      if attachesAtomics Options I
      then st\<lparr>MIS := SetVector_insert MetadataInfo_Atomics (MIS st),
              NumMetadataAtomics := NumMetadataAtomics st + 1\<rparr>
      else st,
      if UAR Options \<and> FM AND kSanitizerBinaryMetadataUAR K = 0 \<and> useAfterReturnUnsafe I
      then FM OR kSanitizerBinaryMetadataUAR K else FM,
      Atomics Options \<and> mayReadOrWriteMemory (props I))"
proof (cases "attachesAtomics Options I")
  case True
  then obtain s where "Atomics Options" "mayReadOrWriteMemory (props I)"
    "getAtomicSyncScopeID (props I) = Some s" "s \<noteq> SingleThread"
    by (auto simp: attachesAtomics_def split: option.splits)
  with True show ?thesis
    by (simp add: runOn_Instruction_def atomicsRecord_def getSectionName_def Let_def)
next
  case False
  show ?thesis
  proof (cases "Atomics Options \<and> mayReadOrWriteMemory (props I)")
    case True
    with False have "getAtomicSyncScopeID (props I) = None \<or> getAtomicSyncScopeID (props I) = Some SingleThread"
      by (auto simp: attachesAtomics_def split: option.splits)
    with True False show ?thesis
      by (elim disjE) (simp_all add: runOn_Instruction_def Let_def)
  next
    case F2: False
    with False show ?thesis
      by (auto simp add: runOn_Instruction_def Let_def)
  qed
qed

lemma SetVector_insert_idem: "SetVector_insert x (SetVector_insert x xs) = SetVector_insert x xs"
  by (simp add: SetVector_insert_def)

lemma or_or_absorb: "((x::uint32) OR k) OR k = x OR k"
  by (rule bit_eqI) (auto simp: bit_or_iff)

lemma scanState_Nil: "scanState Options [] st = st"
  by (simp add: scanState_def)

lemma scanMask_Nil: "scanMask K Options [] FM = FM"
  by (simp add: scanMask_def)

lemma scanState_Cons:
  "scanState Options Is (if attachesAtomics Options I
      then st\<lparr>MIS := SetVector_insert MetadataInfo_Atomics (MIS st),
              NumMetadataAtomics := NumMetadataAtomics st + 1\<rparr>
      else st) = scanState Options (I # Is) st"
proof (cases "attachesAtomics Options I")
  case True
  show ?thesis
  proof (cases "\<exists>J \<in> set Is. attachesAtomics Options J")
    case T2: True
    with True show ?thesis by (simp add: scanState_def SetVector_insert_idem)
  next
    case False
    then have "filter (attachesAtomics Options) Is = []" by (simp add: filter_empty_conv)
    with True False show ?thesis by (simp add: scanState_def)
  qed
next
  case False
  then show ?thesis by (simp add: scanState_def)
qed

lemma scanMask_fixed:
  "scanMask K Options Is (FM OR kSanitizerBinaryMetadataUAR K) = FM OR kSanitizerBinaryMetadataUAR K"
  by (simp add: scanMask_def or_or_absorb)

lemma scanMask_Cons:
  "scanMask K Options Is (if UAR Options \<and> FM AND kSanitizerBinaryMetadataUAR K = 0 \<and> useAfterReturnUnsafe I
      then FM OR kSanitizerBinaryMetadataUAR K else FM) = scanMask K Options (I # Is) FM"
proof (cases "UAR Options \<and> FM AND kSanitizerBinaryMetadataUAR K = 0")
  case True
  show ?thesis
  proof (cases "useAfterReturnUnsafe I")
    case T2: True
    with True have "scanMask K Options (I # Is) FM = FM OR kSanitizerBinaryMetadataUAR K"
      by (simp add: scanMask_def)
    with True T2 show ?thesis by (simp add: scanMask_fixed)
  next
    case False
    with True show ?thesis by (simp add: scanMask_def)
  qed
next
  case False
  then have "scanMask K Options Js FM = FM" for Js
    unfolding scanMask_def by (cases "UAR Options") simp_all
  with False show ?thesis by (cases "UAR Options") simp_all
qed

lemma scanBlock_eq:
  "scanBlock K Options Is st FM RC =
     (map (classified K Options) Is, scanState Options Is st, scanMask K Options Is FM,
      RC \<or> (Atomics Options \<and> (\<exists>I \<in> set Is. mayReadOrWriteMemory (props I))))"
proof (induction Is arbitrary: st FM RC)
  case Nil
  show ?case by (simp add: scanState_Nil scanMask_Nil)
next
  case (Cons I Is)
  have "(RC \<or> (Atomics Options \<and> mayReadOrWriteMemory (props I)) \<or>
         (Atomics Options \<and> (\<exists>J \<in> set Is. mayReadOrWriteMemory (props J))))
        = (RC \<or> (Atomics Options \<and> (\<exists>J \<in> set (I # Is). mayReadOrWriteMemory (props J))))"
    by auto
  then show ?case
    by (simp only: scanBlock.simps runOn_Instruction_eq Cons.IH prod.case scanState_Cons
        scanMask_Cons list.map classified_def disj_assoc)
qed

lemma scanState_append: "scanState Options Js (scanState Options Is st) = scanState Options (Is @ Js) st"
proof (induction Is arbitrary: st)
  case Nil
  show ?case by (simp add: scanState_Nil)
next
  case (Cons I Is)
  show ?case
    by (simp only: scanState_Cons [symmetric] Cons.IH append_Cons)
qed

lemma scanMask_append: "scanMask K Options Js (scanMask K Options Is FM) = scanMask K Options (Is @ Js) FM"
proof (induction Is arbitrary: FM)
  case Nil
  show ?case by (simp add: scanMask_Nil)
next
  case (Cons I Is)
  show ?case
    by (simp only: scanMask_Cons [symmetric] Cons.IH append_Cons)
qed

lemma scanBlocks_eq:
  "scanBlocks K Options BBs st FM RC =
     (map (map (classified K Options)) BBs, scanState Options (concat BBs) st,
      scanMask K Options (concat BBs) FM,
      RC \<or> (Atomics Options \<and> (\<exists>I \<in> set (concat BBs). mayReadOrWriteMemory (props I))))"
proof (induction BBs arbitrary: st FM RC)
  case Nil
  show ?case by (simp add: scanState_Nil scanMask_Nil)
next
  case (Cons BB BBs)
  have "((RC \<or> (Atomics Options \<and> (\<exists>I \<in> set BB. mayReadOrWriteMemory (props I)))) \<or>
         (Atomics Options \<and> (\<exists>J \<in> set (concat BBs). mayReadOrWriteMemory (props J))))
        = (RC \<or> (Atomics Options \<and> (\<exists>J \<in> set (concat (BB # BBs)). mayReadOrWriteMemory (props J))))"
    by auto
  then show ?case
    by (simp only: scanBlocks.simps scanBlock_eq Cons.IH prod.case scanState_append
        scanMask_append concat.simps list.map)
qed


lemma and_not_and_self: "((x::uint32) AND NOT k) AND k = 0"
  by (rule bit_eqI) (auto simp: bit_and_iff bit_not_iff)

lemma scanFunction_mask_vararg:
  "isVarArg F \<Longrightarrow> scanFunction K Options F st = (bbs, st1, FM, rc)
     \<Longrightarrow> FM AND kSanitizerBinaryMetadataUAR K = 0"
  by (auto simp: scanFunction_def Let_def and_not_and_self split: prod.splits if_splits)


lemma scanState_NumMetadataCovered [simp]:
  "NumMetadataCovered (scanState Options Is st) = NumMetadataCovered st"
  by (simp add: scanState_def)

lemma scanState_NumMetadataUAR [simp]:
  "NumMetadataUAR (scanState Options Is st) = NumMetadataUAR st"
  by (simp add: scanState_def)

lemma scanFunction_eq:
  "scanFunction K Options F st =
     (let FM0 = getEnabledPerInstructionFeature K Options;
          scanned = (FM0 \<noteq> 0 \<or> UAR Options);
          FM1 = (if scanned then scanMask K Options (concat (blocks F)) FM0 else FM0);
          FM2 = (if isVarArg F then FM1 AND NOT (kSanitizerBinaryMetadataUAR K) else FM1);
          st1 = (if scanned then scanState Options (concat (blocks F)) st else st)
      in (if scanned then map (map (classified K Options)) (blocks F) else blocks F,
          if FM2 AND kSanitizerBinaryMetadataUAR K \<noteq> 0
          then st1\<lparr>NumMetadataUAR := NumMetadataUAR st1 + 1\<rparr> else st1,
          FM2,
          FM2 AND kSanitizerBinaryMetadataUAR K \<noteq> 0 \<or>
          (scanned \<and> Atomics Options \<and>
           (\<exists>I \<in> set (concat (blocks F)). mayReadOrWriteMemory (props I)))))"
  by (simp add: scanFunction_def scanBlocks_eq Let_def)

lemma scanFunction_NumMetadataCovered:
  "scanFunction K Options F st = (bbs, st1, FM, rc)
     \<Longrightarrow> NumMetadataCovered st1 = NumMetadataCovered st"
  by (auto simp: scanFunction_eq Let_def split: if_splits)

section \<open>Facts about the use-after-return analysis\<close>




section \<open>Facts about masks and the function aggregator\<close>

lemma and_or_distinct: "(a::uint32) AND k = 0 \<Longrightarrow> (x OR k) AND a = x AND a"
  by (rule bit_eqI) (auto simp: bit_and_iff bit_or_iff bit_eq_iff)

lemma and_not_keeps:
  fixes a k x :: uint32
  assumes "a AND k = 0" and "x AND a = a"
  shows "(x AND NOT k) AND a = a"
proof (rule bit_eqI)
  fix n
  have "bit (a AND k) n = bit (0::uint32) n" by (simp add: assms(1))
  then have 1: "\<not> (bit a n \<and> bit k n)" by (simp add: bit_and_iff)
  have "bit (x AND a) n = bit a n" by (simp add: assms(2))
  then have 2: "bit a n \<longrightarrow> bit x n" by (auto simp: bit_and_iff)
  from 1 2 show "bit ((x AND NOT k) AND a) n = bit a n"
    by (auto simp: bit_and_iff bit_not_iff dest: bit_imp_le_length)
qed

lemma or_keeps:
  fixes a k x :: uint32
  assumes "x AND a = a"
  shows "(x OR k) AND a = a"
proof (rule bit_eqI)
  fix n
  have "bit (x AND a) n = bit a n" by (simp add: assms)
  then have "bit a n \<longrightarrow> bit x n" by (auto simp: bit_and_iff)
  then show "bit ((x OR k) AND a) n = bit a n"
    by (auto simp: bit_and_iff bit_or_iff)
qed

lemma scanMask_keeps:
  "FM AND a = a \<Longrightarrow> scanMask K Options Is FM AND a = a"
  by (simp add: scanMask_def or_keeps)

lemma classified_nth:
  "b < length BBs \<Longrightarrow> i < length (BBs ! b)
     \<Longrightarrow> map (map (classified K Options)) BBs ! b ! i = classified K Options (BBs ! b ! i)"
  by simp

lemma nth_nth_in_concat:
  "b < length BBs \<Longrightarrow> i < length (BBs ! b) \<Longrightarrow> BBs ! b ! i \<in> set (concat BBs)"
  by (metis nth_mem set_concat UN_I)

lemma attachesAtomicsI:
  "Atomics Options \<Longrightarrow> mayReadOrWriteMemory (props I)
     \<Longrightarrow> getAtomicSyncScopeID (props I) = Some SSID \<Longrightarrow> SSID \<noteq> SingleThread
     \<Longrightarrow> attachesAtomics Options I"
  by (simp add: attachesAtomics_def)

lemma props_setMetadata: "MD_pcsections (props (setMetadata I md)) = Some md"
  by (simp add: setMetadata_def)

lemma scanFunction_requires:
  assumes "Atomics Options"
    and "\<exists>J \<in> set (concat (blocks F)). mayReadOrWriteMemory (props J)"
    and "scanFunction K Options F st = (bbs, st1, FM1, rc)"
    and "FM1 \<noteq> 0"
  shows rc
proof (cases "getEnabledPerInstructionFeature K Options \<noteq> 0 \<or> UAR Options")
  case True
  with assms(1,2,3) show ?thesis
    by (auto simp: scanFunction_eq Let_def)
next
  case False
  with assms(3,4) show ?thesis
    by (auto simp: scanFunction_eq Let_def split: if_splits)
qed

section \<open>Facts about the emitter and the module driver\<close>

lemma emitKind_eq:
  "emitKind K Version MI Mod =
     Mod\<lparr>globals := globals Mod @ sectionMarkers K MI,
         entry_points := entry_points Mod @ registrationPair K Version (supportsCOMDAT Mod) MI,
         comdats :=
           (if supportsCOMDAT Mod
            then getOrInsertComdat
                   (getOrInsertComdat (comdats Mod) (FunctionPrefix MI @ ''.module_ctor''))
                   (FunctionPrefix MI @ ''.module_dtor'')
            else comdats Mod),
         global_ctors := global_ctors Mod @ [ctorEntry (supportsCOMDAT Mod) MI],
         global_dtors := global_dtors Mod @ [dtorEntry (supportsCOMDAT Mod) MI]\<rparr>"
  by (simp add: emitKind_def Let_def getSectionMarker_def getSectionStart_def getSectionEnd_def
      createSanitizerCtorAndInitFunctions_def appendToGlobalCtors_def appendToGlobalDtors_def
      sectionMarkers_def registrationPair_def registrationArgs_def ctorEntry_def dtorEntry_def)

lemma emitKind_proj:
  "supportsCOMDAT (emitKind K Version MI Mod) = supportsCOMDAT Mod"
  "Functions (emitKind K Version MI Mod) = Functions Mod"
  "getCodeModel (emitKind K Version MI Mod) = getCodeModel Mod"
  "globals (emitKind K Version MI Mod) = globals Mod @ sectionMarkers K MI"
  "entry_points (emitKind K Version MI Mod)
     = entry_points Mod @ registrationPair K Version (supportsCOMDAT Mod) MI"
  "global_ctors (emitKind K Version MI Mod) = global_ctors Mod @ [ctorEntry (supportsCOMDAT Mod) MI]"
  "global_dtors (emitKind K Version MI Mod) = global_dtors Mod @ [dtorEntry (supportsCOMDAT Mod) MI]"
  by (simp_all add: emitKind_eq)

lemma fold_emitKind:
  "supportsCOMDAT (fold (emitKind K Version) L Mod) = supportsCOMDAT Mod \<and>
   Functions (fold (emitKind K Version) L Mod) = Functions Mod \<and>
   getCodeModel (fold (emitKind K Version) L Mod) = getCodeModel Mod \<and>
   globals (fold (emitKind K Version) L Mod) = globals Mod @ concat (map (sectionMarkers K) L) \<and>
   entry_points (fold (emitKind K Version) L Mod)
     = entry_points Mod @ concat (map (registrationPair K Version (supportsCOMDAT Mod)) L) \<and>
   global_ctors (fold (emitKind K Version) L Mod)
     = global_ctors Mod @ map (ctorEntry (supportsCOMDAT Mod)) L \<and>
   global_dtors (fold (emitKind K Version) L Mod)
     = global_dtors Mod @ map (dtorEntry (supportsCOMDAT Mod)) L"
proof (induction L arbitrary: Mod)
  case Nil
  show ?case by simp
next
  case (Cons MI L)
  show ?case
    by (simp add: Cons.IH emitKind_proj)
qed

lemma getVersion_Functions: "getVersion (Mod\<lparr>Functions := Fs\<rparr>) = getVersion Mod"
  by (simp add: getVersion_def)

lemma getVersion_low: "take_bit 16 (getVersion Mod) = kVersionBase"
  by (simp add: getVersion_def kVersionBase_def kVersionPtrSizeRel_def split: option.split)

lemma getVersion_bit16:
  "bit (getVersion Mod) 16 \<longleftrightarrow> getCodeModel Mod = Some Medium \<or> getCodeModel Mod = Some Large"
  by (simp add: getVersion_def kVersionBase_def kVersionPtrSizeRel_def bit_or_iff split: option.split)

lemma run_eq:
  "run K Options Mod st0 =
     (let r = runOnFunctions K Options (Functions Mod) (st0\<lparr>MIS := []\<rparr>);
          Mod1 = Mod\<lparr>Functions := fst r\<rparr>
      in if MIS (snd r) = [] then (False, Mod1, snd r)
         else (True, fold (emitKind K (getVersion Mod)) (MIS (snd r)) Mod1, snd r))"
  by (simp add: run_def Let_def getVersion_Functions split: prod.split)


lemma set_SetVector_insert: "set (SetVector_insert x xs) = insert x (set xs)"
  by (auto simp: SetVector_insert_def)

lemma SetVector_insert_not_Nil: "SetVector_insert x xs \<noteq> []"
  by (auto simp: SetVector_insert_def)

lemma scanState_MIS:
  "MIS (scanState Options Is st) =
     (if \<exists>I \<in> set Is. attachesAtomics Options I
      then SetVector_insert MetadataInfo_Atomics (MIS st) else MIS st)"
  by (simp add: scanState_def)

lemma scanState_NumMetadataAtomics:
  "NumMetadataAtomics (scanState Options Is st)
     = NumMetadataAtomics st + length (filter (attachesAtomics Options) Is)"
  by (simp add: scanState_def filter_empty_conv)

lemma filter_pos: "0 < length (filter P xs) \<longleftrightarrow> (\<exists>x \<in> set xs. P x)"
  by (simp add: filter_empty_conv)

lemma map_classified_id:
  assumes "\<forall>I \<in> set (concat BBs). \<not> attachesAtomics Options I"
  shows "map (map (classified K Options)) BBs = BBs"
proof (rule map_idI)
  fix BB assume "BB \<in> set BBs"
  with assms have "\<And>I. I \<in> set BB \<Longrightarrow> classified K Options I = I"
    by (auto simp: classified_def)
  then show "map (classified K Options) BB = BB"
    by (rule map_idI)
qed

lemma classified_record:
  "\<exists>I \<in> set (concat BBs). attachesAtomics Options I
     \<Longrightarrow> \<exists>I \<in> set (concat (map (map (classified K Options)) BBs)).
           MD_pcsections (props I) = Some (atomicsRecord K)"
proof -
  assume "\<exists>I \<in> set (concat BBs). attachesAtomics Options I"
  then obtain BB I where h: "BB \<in> set BBs" "I \<in> set BB" "attachesAtomics Options I" by auto
  then have "classified K Options I \<in> set (concat (map (map (classified K Options)) BBs))"
    by auto
  moreover have "MD_pcsections (props (classified K Options I)) = Some (atomicsRecord K)"
    using h(3) by (simp add: classified_def props_setMetadata)
  ultimately show ?thesis by blast
qed

text \<open>What scanning one function does to the kind set and the counters.\<close>

lemma scanFunction_kinds:
  assumes "scanFunction K Options F st = (bbs, st1, FM, rc)"
  shows "NumMetadataCovered st1 = NumMetadataCovered st"
    and "NumMetadataAtomics st \<le> NumMetadataAtomics st1"
    and "MetadataInfo_Atomics \<in> set (MIS st1) \<longleftrightarrow>
           MetadataInfo_Atomics \<in> set (MIS st) \<or> NumMetadataAtomics st < NumMetadataAtomics st1"
    and "MetadataInfo_Covered \<in> set (MIS st1) \<longleftrightarrow> MetadataInfo_Covered \<in> set (MIS st)"
    and "NumMetadataAtomics st < NumMetadataAtomics st1 \<longrightarrow>
           (\<exists>I \<in> set (concat bbs). MD_pcsections (props I) = Some (atomicsRecord K))"
    and "MIS st1 = [] \<longrightarrow> bbs = blocks F \<and> MIS st = []"
proof -
  define scanned where
    "scanned \<longleftrightarrow> getEnabledPerInstructionFeature K Options \<noteq> 0 \<or> UAR Options"
  define att where "att \<longleftrightarrow> (\<exists>I \<in> set (concat (blocks F)). attachesAtomics Options I)"
  define st2 where "st2 = (if scanned then scanState Options (concat (blocks F)) st else st)"
  have bbs: "bbs = (if scanned then map (map (classified K Options)) (blocks F) else blocks F)"
    using assms by (simp add: scanFunction_eq Let_def scanned_def)
  have "st1 = st2 \<or> st1 = st2\<lparr>NumMetadataUAR := NumMetadataUAR st2 + 1\<rparr>"
    using assms by (auto simp: scanFunction_eq Let_def scanned_def st2_def split: if_splits)
  then have st1: "MIS st1 = MIS st2" "NumMetadataAtomics st1 = NumMetadataAtomics st2"
    "NumMetadataCovered st1 = NumMetadataCovered st2"
    by auto
  have mis: "MIS st2 = (if scanned \<and> att then SetVector_insert MetadataInfo_Atomics (MIS st)
      else MIS st)"
    by (simp add: st2_def scanState_MIS att_def)
  have num: "NumMetadataAtomics st2 = NumMetadataAtomics st +
      (if scanned then length (filter (attachesAtomics Options) (concat (blocks F))) else 0)"
    by (simp add: st2_def scanState_NumMetadataAtomics)
  have pos: "NumMetadataAtomics st < NumMetadataAtomics st2 \<longleftrightarrow> scanned \<and> att"
    using filter_pos [of "attachesAtomics Options" "concat (blocks F)"]
    by (simp add: num att_def)
  show "NumMetadataCovered st1 = NumMetadataCovered st"
    by (simp add: st1 st2_def)
  show "NumMetadataAtomics st \<le> NumMetadataAtomics st1"
    by (simp add: st1 num)
  show "MetadataInfo_Atomics \<in> set (MIS st1) \<longleftrightarrow>
           MetadataInfo_Atomics \<in> set (MIS st) \<or> NumMetadataAtomics st < NumMetadataAtomics st1"
    by (auto simp: st1 pos mis set_SetVector_insert)
  show "MetadataInfo_Covered \<in> set (MIS st1) \<longleftrightarrow> MetadataInfo_Covered \<in> set (MIS st)"
    by (simp add: st1 mis set_SetVector_insert)
  show "NumMetadataAtomics st < NumMetadataAtomics st1 \<longrightarrow>
           (\<exists>I \<in> set (concat bbs). MD_pcsections (props I) = Some (atomicsRecord K))"
    using classified_record [of "blocks F" Options K]
    by (simp add: st1 pos bbs att_def)
  show "MIS st1 = [] \<longrightarrow> bbs = blocks F \<and> MIS st = []"
    using map_classified_id [of "blocks F" Options K]
    by (simp add: st1 mis bbs att_def SetVector_insert_not_Nil)
qed

lemma runOn_Function_skipped:
  "\<not> processed F \<Longrightarrow> runOn_Function K Options F st = (F, st)"
  by (auto simp: runOn_Function_def processed_def)

lemma runOn_Function_processed:
  "processed F \<Longrightarrow> scanFunction K Options F st = (bbs, st1, FM, rc) \<Longrightarrow>
   runOn_Function K Options F st =
     (if Covered Options \<or> (FM \<noteq> 0 \<and> rc) then
        (F\<lparr>blocks := bbs, F_MD_pcsections := Some (coverageRecord K FM)\<rparr>,
         st1\<lparr>NumMetadataCovered := NumMetadataCovered st1 + 1,
             MIS := SetVector_insert MetadataInfo_Covered (MIS st1)\<rparr>)
      else (F\<lparr>blocks := bbs\<rparr>, st1))"
  by (simp add: runOn_Function_def processed_def coverageRecord_def getSectionName_def)

lemma runOn_Function_kinds:
  assumes "runOn_Function K Options F st = (F', st')"
  shows "NumMetadataCovered st \<le> NumMetadataCovered st'"
    and "NumMetadataAtomics st \<le> NumMetadataAtomics st'"
    and "MetadataInfo_Atomics \<in> set (MIS st') \<longleftrightarrow>
           MetadataInfo_Atomics \<in> set (MIS st) \<or> NumMetadataAtomics st < NumMetadataAtomics st'"
    and "MetadataInfo_Covered \<in> set (MIS st') \<longleftrightarrow>
           MetadataInfo_Covered \<in> set (MIS st) \<or> NumMetadataCovered st < NumMetadataCovered st'"
    and "NumMetadataAtomics st < NumMetadataAtomics st' \<longrightarrow>
           (\<exists>I \<in> set (concat (blocks F')). MD_pcsections (props I) = Some (atomicsRecord K))"
    and "NumMetadataCovered st < NumMetadataCovered st' \<longrightarrow>
           (\<exists>m. F_MD_pcsections F' = Some (coverageRecord K m))"
    and "MIS st' = [] \<longrightarrow> F' = F \<and> MIS st = []"
proof -
  obtain bbs st1 FM rc where sf: "scanFunction K Options F st = (bbs, st1, FM, rc)"
    by (cases "scanFunction K Options F st") auto
  note k = scanFunction_kinds [OF sf]
  show "NumMetadataCovered st \<le> NumMetadataCovered st'"
  proof (cases "processed F")
    case True
    from assms k(1) show ?thesis
      by (auto simp: runOn_Function_processed [OF True sf] split: if_splits)
  next
    case False
    from assms show ?thesis by (simp add: runOn_Function_skipped [OF False])
  qed
  show "NumMetadataAtomics st \<le> NumMetadataAtomics st'"
  proof (cases "processed F")
    case True
    from assms k(2) show ?thesis
      by (auto simp: runOn_Function_processed [OF True sf] split: if_splits)
  next
    case False
    from assms show ?thesis by (simp add: runOn_Function_skipped [OF False])
  qed
  show "MetadataInfo_Atomics \<in> set (MIS st') \<longleftrightarrow>
           MetadataInfo_Atomics \<in> set (MIS st) \<or> NumMetadataAtomics st < NumMetadataAtomics st'"
  proof (cases "processed F")
    case True
    from assms k(3) show ?thesis
      by (auto simp: runOn_Function_processed [OF True sf] set_SetVector_insert split: if_splits)
  next
    case False
    from assms show ?thesis by (auto simp: runOn_Function_skipped [OF False])
  qed
  show "MetadataInfo_Covered \<in> set (MIS st') \<longleftrightarrow>
           MetadataInfo_Covered \<in> set (MIS st) \<or> NumMetadataCovered st < NumMetadataCovered st'"
  proof (cases "processed F")
    case True
    from assms k(1,4) show ?thesis
      by (auto simp: runOn_Function_processed [OF True sf] set_SetVector_insert split: if_splits)
  next
    case False
    from assms show ?thesis by (auto simp: runOn_Function_skipped [OF False])
  qed
  show "NumMetadataAtomics st < NumMetadataAtomics st' \<longrightarrow>
           (\<exists>I \<in> set (concat (blocks F')). MD_pcsections (props I) = Some (atomicsRecord K))"
  proof (cases "processed F")
    case True
    from assms k(5) show ?thesis
      by (auto simp: runOn_Function_processed [OF True sf] split: if_splits)
  next
    case False
    from assms show ?thesis by (auto simp: runOn_Function_skipped [OF False])
  qed
  show "NumMetadataCovered st < NumMetadataCovered st' \<longrightarrow>
           (\<exists>m. F_MD_pcsections F' = Some (coverageRecord K m))"
  proof (cases "processed F")
    case True
    from assms k(1) show ?thesis
      by (auto simp: runOn_Function_processed [OF True sf] split: if_splits)
  next
    case False
    from assms show ?thesis by (auto simp: runOn_Function_skipped [OF False])
  qed
  show "MIS st' = [] \<longrightarrow> F' = F \<and> MIS st = []"
  proof (cases "processed F")
    case True
    from assms k(6) show ?thesis
      by (auto simp: runOn_Function_processed [OF True sf] SetVector_insert_not_Nil
          split: if_splits)
  next
    case False
    from assms show ?thesis by (auto simp: runOn_Function_skipped [OF False])
  qed
qed


lemma runOnFunctions_kinds:
  "runOnFunctions K Options Fs st = (Fs', st') \<Longrightarrow>
   NumMetadataCovered st \<le> NumMetadataCovered st' \<and>
   NumMetadataAtomics st \<le> NumMetadataAtomics st' \<and>
   (MetadataInfo_Atomics \<in> set (MIS st') \<longleftrightarrow>
      MetadataInfo_Atomics \<in> set (MIS st) \<or> NumMetadataAtomics st < NumMetadataAtomics st') \<and>
   (MetadataInfo_Covered \<in> set (MIS st') \<longleftrightarrow>
      MetadataInfo_Covered \<in> set (MIS st) \<or> NumMetadataCovered st < NumMetadataCovered st') \<and>
   (NumMetadataAtomics st < NumMetadataAtomics st' \<longrightarrow>
      (\<exists>F' \<in> set Fs'. \<exists>I \<in> set (concat (blocks F')).
         MD_pcsections (props I) = Some (atomicsRecord K))) \<and>
   (NumMetadataCovered st < NumMetadataCovered st' \<longrightarrow>
      (\<exists>F' \<in> set Fs'. \<exists>m. F_MD_pcsections F' = Some (coverageRecord K m))) \<and>
   (MIS st' = [] \<longrightarrow> Fs' = Fs \<and> MIS st = [])"
proof (induction Fs arbitrary: st Fs' st')
  case Nil
  then show ?case by simp
next
  case (Cons F Fs)
  obtain F1 st1 where f: "runOn_Function K Options F st = (F1, st1)"
    by (cases "runOn_Function K Options F st") auto
  obtain Fs2 st2 where r: "runOnFunctions K Options Fs st1 = (Fs2, st2)"
    by (cases "runOnFunctions K Options Fs st1") auto
  from Cons.prems f r have res: "Fs' = F1 # Fs2" "st' = st2" by simp_all
  note a = runOn_Function_kinds [OF f]
  note b = Cons.IH [OF r]
  have 1: "NumMetadataCovered st \<le> NumMetadataCovered st'"
    using a(1) b by (simp add: res)
  have 2: "NumMetadataAtomics st \<le> NumMetadataAtomics st'"
    using a(2) b by (simp add: res)
  have 3: "MetadataInfo_Atomics \<in> set (MIS st') \<longleftrightarrow>
      MetadataInfo_Atomics \<in> set (MIS st) \<or> NumMetadataAtomics st < NumMetadataAtomics st'"
    using a(2,3) b unfolding res by linarith
  have 4: "MetadataInfo_Covered \<in> set (MIS st') \<longleftrightarrow>
      MetadataInfo_Covered \<in> set (MIS st) \<or> NumMetadataCovered st < NumMetadataCovered st'"
    using a(1,4) b unfolding res by linarith
  have 5: "NumMetadataAtomics st < NumMetadataAtomics st' \<longrightarrow>
      (\<exists>F' \<in> set Fs'. \<exists>I \<in> set (concat (blocks F')).
         MD_pcsections (props I) = Some (atomicsRecord K))"
  proof
    assume "NumMetadataAtomics st < NumMetadataAtomics st'"
    then have "NumMetadataAtomics st < NumMetadataAtomics st1 \<or>
        NumMetadataAtomics st1 < NumMetadataAtomics st2"
      unfolding res by linarith
    then show "\<exists>F' \<in> set Fs'. \<exists>I \<in> set (concat (blocks F')).
         MD_pcsections (props I) = Some (atomicsRecord K)"
    proof
      assume "NumMetadataAtomics st < NumMetadataAtomics st1"
      with a(5) have "\<exists>I \<in> set (concat (blocks F1)).
          MD_pcsections (props I) = Some (atomicsRecord K)" by simp
      then show ?thesis unfolding res by simp
    next
      assume "NumMetadataAtomics st1 < NumMetadataAtomics st2"
      with b have "\<exists>F' \<in> set Fs2. \<exists>I \<in> set (concat (blocks F')).
         MD_pcsections (props I) = Some (atomicsRecord K)" by simp
      then show ?thesis unfolding res by simp
    qed
  qed
  have 6: "NumMetadataCovered st < NumMetadataCovered st' \<longrightarrow>
      (\<exists>F' \<in> set Fs'. \<exists>m. F_MD_pcsections F' = Some (coverageRecord K m))"
  proof
    assume "NumMetadataCovered st < NumMetadataCovered st'"
    then have "NumMetadataCovered st < NumMetadataCovered st1 \<or>
        NumMetadataCovered st1 < NumMetadataCovered st2"
      unfolding res by linarith
    then show "\<exists>F' \<in> set Fs'. \<exists>m. F_MD_pcsections F' = Some (coverageRecord K m)"
    proof
      assume "NumMetadataCovered st < NumMetadataCovered st1"
      with a(6) have "\<exists>m. F_MD_pcsections F1 = Some (coverageRecord K m)" by simp
      then show ?thesis unfolding res by simp
    next
      assume "NumMetadataCovered st1 < NumMetadataCovered st2"
      with b have "\<exists>F' \<in> set Fs2. \<exists>m. F_MD_pcsections F' = Some (coverageRecord K m)" by simp
      then show ?thesis unfolding res by simp
    qed
  qed
  have 7: "MIS st' = [] \<longrightarrow> Fs' = F # Fs \<and> MIS st = []"
    using a(7) b unfolding res by simp
  from 1 2 3 4 5 6 7 show ?case by simp
qed

lemma distinct_SetVector_insert: "distinct xs \<Longrightarrow> distinct (SetVector_insert x xs)"
  by (simp add: SetVector_insert_def)

lemma scanFunction_distinct:
  assumes "scanFunction K Options F st = (bbs, st1, FM, rc)" and "distinct (MIS st)"
  shows "distinct (MIS st1)"
proof -
  define st2 where "st2 = (if getEnabledPerInstructionFeature K Options \<noteq> 0 \<or> UAR Options
      then scanState Options (concat (blocks F)) st else st)"
  have "st1 = st2 \<or> st1 = st2\<lparr>NumMetadataUAR := NumMetadataUAR st2 + 1\<rparr>"
    using assms(1) by (auto simp: scanFunction_eq Let_def st2_def split: if_splits)
  then have "MIS st1 = MIS st2" by auto
  moreover have "distinct (MIS st2)"
    using assms(2) by (simp add: st2_def scanState_MIS distinct_SetVector_insert)
  ultimately show ?thesis by simp
qed

lemma runOn_Function_distinct:
  assumes "runOn_Function K Options F st = (F', st')" and "distinct (MIS st)"
  shows "distinct (MIS st')"
proof (cases "processed F")
  case True
  obtain bbs st1 FM rc where sf: "scanFunction K Options F st = (bbs, st1, FM, rc)"
    by (cases "scanFunction K Options F st") auto
  have "distinct (MIS st1)" using sf assms(2) by (rule scanFunction_distinct)
  with assms(1) show ?thesis
    by (auto simp: runOn_Function_processed [OF True sf] distinct_SetVector_insert split: if_splits)
next
  case False
  with assms show ?thesis by (simp add: runOn_Function_skipped)
qed

lemma runOnFunctions_distinct:
  "runOnFunctions K Options Fs st = (Fs', st') \<Longrightarrow> distinct (MIS st) \<Longrightarrow> distinct (MIS st')"
proof (induction Fs arbitrary: st Fs' st')
  case Nil
  then show ?case by simp
next
  case (Cons F Fs)
  obtain F1 st1 where f: "runOn_Function K Options F st = (F1, st1)"
    by (cases "runOn_Function K Options F st") auto
  obtain Fs2 st2 where r: "runOnFunctions K Options Fs st1 = (Fs2, st2)"
    by (cases "runOnFunctions K Options Fs st1") auto
  from Cons.prems(1) f r have res: "st' = st2" by simp
  have "distinct (MIS st1)" using f Cons.prems(2) by (rule runOn_Function_distinct)
  with r have "distinct (MIS st2)" by (rule Cons.IH)
  then show ?case by (simp add: res)
qed

text \<open>What a run of the module driver leaves, in terms of the final kind set.\<close>

lemma run_emits:
  assumes "run K Options Mod st0 = (changed, M', st')"
  shows "runOnFunctions K Options (Functions Mod) (st0\<lparr>MIS := []\<rparr>) = (Functions M', st')"
    and "changed \<longleftrightarrow> MIS st' \<noteq> []"
    and "globals M' = globals Mod @ concat (map (sectionMarkers K) (MIS st'))"
    and "entry_points M' = entry_points Mod @
           concat (map (registrationPair K (getVersion Mod) (supportsCOMDAT Mod)) (MIS st'))"
    and "global_ctors M' = global_ctors Mod @ map (ctorEntry (supportsCOMDAT Mod)) (MIS st')"
    and "global_dtors M' = global_dtors Mod @ map (dtorEntry (supportsCOMDAT Mod)) (MIS st')"
proof -
  obtain Fs st where r: "runOnFunctions K Options (Functions Mod) (st0\<lparr>MIS := []\<rparr>) = (Fs, st)"
    by (cases "runOnFunctions K Options (Functions Mod) (st0\<lparr>MIS := []\<rparr>)") auto
  note f = fold_emitKind [of K "getVersion Mod" "MIS st" "Mod\<lparr>Functions := Fs\<rparr>"]
  have e: "st' = st" "changed \<longleftrightarrow> MIS st \<noteq> []"
    "M' = (if MIS st = [] then Mod\<lparr>Functions := Fs\<rparr>
           else fold (emitKind K (getVersion Mod)) (MIS st) (Mod\<lparr>Functions := Fs\<rparr>))"
    using assms by (auto simp: run_eq r Let_def split: if_splits)
  show "runOnFunctions K Options (Functions Mod) (st0\<lparr>MIS := []\<rparr>) = (Functions M', st')"
    using f by (simp add: e r)
  show "changed \<longleftrightarrow> MIS st' \<noteq> []" by (simp add: e)
  show "globals M' = globals Mod @ concat (map (sectionMarkers K) (MIS st'))"
    using f by (simp add: e)
  show "entry_points M' = entry_points Mod @
           concat (map (registrationPair K (getVersion Mod) (supportsCOMDAT Mod)) (MIS st'))"
    using f by (simp add: e)
  show "global_ctors M' = global_ctors Mod @ map (ctorEntry (supportsCOMDAT Mod)) (MIS st')"
    using f by (simp add: e)
  show "global_dtors M' = global_dtors Mod @ map (dtorEntry (supportsCOMDAT Mod)) (MIS st')"
    using f by (simp add: e)
qed

text \<open>The equations that evaluate the pass on the example inputs.\<close>

lemmas eval_defs =
  run_eq runOnFunctions.simps runOn_Function_def scanFunction_eq Let_def
  getEnabledPerInstructionFeature_def scanMask_def scanState_def classified_def
  attachesAtomics_def atomicsRecord_def coverageRecord_def setMetadata_def getSectionName_def
  SetVector_insert_def emitKind_eq sectionMarkers_def registrationPair_def registrationArgs_def
  ctorEntry_def dtorEntry_def getOrInsertComdat_def getVersion_def kVersionBase_def
  kVersionPtrSizeRel_def kCtorDtorPriority_def
  example_consts_def example_module_def example_function_def initial_state_def
  only_atomics_def only_uar_def atomic_load_def plain_load_def ret_inst_def plain_inst_def
  useAfterReturnUnsafe_def

lemma and_not_disjoint:
  fixes a k :: uint32
  assumes "a AND k = 0"
  shows "a AND NOT k = a"
proof (rule bit_eqI)
  fix n
  have "bit (a AND k) n = bit (0::uint32) n" by (simp add: assms)
  then have "\<not> (bit a n \<and> bit k n)" by (simp add: bit_and_iff)
  then show "bit (a AND NOT k) n = bit a n"
    by (auto simp: bit_and_iff bit_not_iff dest: bit_imp_le_length)
qed

text \<open>The final mask of a function, and what the run leaves untouched.\<close>

lemma and_not_distinct:
  fixes a k x :: uint32
  assumes "a AND k = 0"
  shows "(x AND NOT k) AND a = x AND a"
proof (rule bit_eqI)
  fix n
  have "bit (a AND k) n = bit (0::uint32) n" by (simp add: assms)
  then have "\<not> (bit a n \<and> bit k n)" by (simp add: bit_and_iff)
  then show "bit ((x AND NOT k) AND a) n = bit (x AND a) n"
    by (auto simp: bit_and_iff bit_not_iff dest: bit_imp_le_length)
qed

lemma scanFunction_mask:
  assumes "scanFunction K Options F st = (bbs, st1, FM, rc)"
  shows "FM =
     (let FM0 = (if Atomics Options then kSanitizerBinaryMetadataAtomics K else 0);
          FM1 = (if UAR Options \<and> FM0 AND kSanitizerBinaryMetadataUAR K = 0 \<and>
                    (\<exists>I \<in> set (concat (blocks F)). useAfterReturnUnsafe I)
                 then FM0 OR kSanitizerBinaryMetadataUAR K else FM0)
      in if isVarArg F then FM1 AND NOT (kSanitizerBinaryMetadataUAR K) else FM1)"
proof -
  define G where "G = getEnabledPerInstructionFeature K Options"
  define X where "X = (if G \<noteq> 0 \<or> UAR Options
      then scanMask K Options (concat (blocks F)) G else G)"
  have g: "(if Atomics Options then kSanitizerBinaryMetadataAtomics K else 0) = G"
    by (simp add: G_def getEnabledPerInstructionFeature_def)
  have "FM = fst (snd (snd (scanFunction K Options F st)))"
    by (simp add: assms)
  also have "\<dots> = (if isVarArg F then X AND NOT (kSanitizerBinaryMetadataUAR K) else X)"
    by (simp add: scanFunction_eq Let_def X_def G_def)
  finally have fm: "FM = (if isVarArg F then X AND NOT (kSanitizerBinaryMetadataUAR K) else X)" .
  have x: "(if UAR Options \<and> G AND kSanitizerBinaryMetadataUAR K = 0 \<and>
                    (\<exists>I \<in> set (concat (blocks F)). useAfterReturnUnsafe I)
                 then G OR kSanitizerBinaryMetadataUAR K else G) = X"
  proof (cases "UAR Options")
    case True
    then show ?thesis by (simp add: X_def scanMask_def)
  next
    case False
    then show ?thesis by (simp add: X_def scanMask_def)
  qed
  show ?thesis
    unfolding Let_def g x by (rule fm)
qed

lemma scanFunction_mask_bits:
  assumes sf: "scanFunction K Options F st = (bbs, st1, FM, rc)"
    and d: "kSanitizerBinaryMetadataAtomics K AND kSanitizerBinaryMetadataUAR K = 0"
  shows "FM AND kSanitizerBinaryMetadataAtomics K
           = (if Atomics Options then kSanitizerBinaryMetadataAtomics K else 0)"
    and "FM AND kSanitizerBinaryMetadataUAR K \<noteq> 0 \<longrightarrow>
           UAR Options \<and> \<not> isVarArg F \<and>
           (\<exists>I \<in> set (concat (blocks F)). useAfterReturnUnsafe I)"
proof -
  define kA where "kA = kSanitizerBinaryMetadataAtomics K"
  define kU where "kU = kSanitizerBinaryMetadataUAR K"
  define FM0 where "FM0 = (if Atomics Options then kA else 0)"
  define c where "c \<longleftrightarrow> UAR Options \<and> FM0 AND kU = 0 \<and>
      (\<exists>I \<in> set (concat (blocks F)). useAfterReturnUnsafe I)"
  define FM1 where "FM1 = (if c then FM0 OR kU else FM0)"
  have fm: "FM = (if isVarArg F then FM1 AND NOT kU else FM1)"
    unfolding FM1_def c_def FM0_def kA_def kU_def
    using scanFunction_mask [OF sf] by (simp only: Let_def)
  have d': "kA AND kU = 0" using d by (simp add: kA_def kU_def)
  have a0: "FM0 AND kA = (if Atomics Options then kA else 0)"
    by (simp add: FM0_def)
  have a1: "FM1 AND kA = FM0 AND kA"
    using d' by (simp add: FM1_def and_or_distinct)
  have a2: "FM AND kA = FM1 AND kA"
    using d' by (simp add: fm and_not_distinct)
  show "FM AND kSanitizerBinaryMetadataAtomics K
           = (if Atomics Options then kSanitizerBinaryMetadataAtomics K else 0)"
    using a0 a1 a2 by (simp add: kA_def)
  have u0: "FM0 AND kU = 0"
    using d' by (simp add: FM0_def)
  show "FM AND kSanitizerBinaryMetadataUAR K \<noteq> 0 \<longrightarrow>
           UAR Options \<and> \<not> isVarArg F \<and>
           (\<exists>I \<in> set (concat (blocks F)). useAfterReturnUnsafe I)"
  proof
    assume nz: "FM AND kSanitizerBinaryMetadataUAR K \<noteq> 0"
    then have nz': "FM AND kU \<noteq> 0" by (simp add: kU_def)
    have nv: "\<not> isVarArg F"
    proof
      assume "isVarArg F"
      then have "FM AND kU = 0" by (simp add: fm and_not_and_self)
      with nz' show False by simp
    qed
    then have "FM = FM1" by (simp add: fm)
    with nz' u0 have c by (cases c) (simp_all add: FM1_def)
    with nv show "UAR Options \<and> \<not> isVarArg F \<and>
           (\<exists>I \<in> set (concat (blocks F)). useAfterReturnUnsafe I)"
      by (simp add: c_def)
  qed
qed

lemma scanFunction_frame:
  assumes "scanFunction K Options F st = (bbs, st1, FM, rc)"
    and "MetadataInfo_Atomics \<notin> set (MIS st1)"
  shows "bbs = blocks F"
proof -
  define scanned where
    "scanned \<longleftrightarrow> getEnabledPerInstructionFeature K Options \<noteq> 0 \<or> UAR Options"
  define att where "att \<longleftrightarrow> (\<exists>I \<in> set (concat (blocks F)). attachesAtomics Options I)"
  define st2 where "st2 = (if scanned then scanState Options (concat (blocks F)) st else st)"
  have bbs: "bbs = (if scanned then map (map (classified K Options)) (blocks F) else blocks F)"
    using assms(1) by (simp add: scanFunction_eq Let_def scanned_def)
  have "st1 = st2 \<or> st1 = st2\<lparr>NumMetadataUAR := NumMetadataUAR st2 + 1\<rparr>"
    using assms(1) by (auto simp: scanFunction_eq Let_def scanned_def st2_def split: if_splits)
  then have st1: "MIS st1 = MIS st2" by auto
  have mis: "MIS st2 = (if scanned \<and> att then SetVector_insert MetadataInfo_Atomics (MIS st)
      else MIS st)"
    by (simp add: st2_def scanState_MIS att_def)
  have "\<not> (scanned \<and> att)"
  proof
    assume "scanned \<and> att"
    then have "MetadataInfo_Atomics \<in> set (MIS st1)"
      by (simp add: st1 mis set_SetVector_insert)
    with assms(2) show False by simp
  qed
  then show ?thesis
    using map_classified_id [of "blocks F" Options K]
    by (auto simp: bbs att_def)
qed

lemma runOn_Function_frame:
  assumes "runOn_Function K Options F st = (F', st')"
  shows "MetadataInfo_Atomics \<notin> set (MIS st') \<longrightarrow> blocks F' = blocks F"
    and "MetadataInfo_Covered \<notin> set (MIS st') \<longrightarrow> F_MD_pcsections F' = F_MD_pcsections F"
proof -
  obtain bbs st1 FM rc where sf: "scanFunction K Options F st = (bbs, st1, FM, rc)"
    by (cases "scanFunction K Options F st") auto
  show "MetadataInfo_Atomics \<notin> set (MIS st') \<longrightarrow> blocks F' = blocks F"
  proof (cases "processed F")
    case True
    show ?thesis
    proof
      assume n: "MetadataInfo_Atomics \<notin> set (MIS st')"
      from assms n have "MetadataInfo_Atomics \<notin> set (MIS st1)"
        by (auto simp: runOn_Function_processed [OF True sf] set_SetVector_insert split: if_splits)
      with sf have "bbs = blocks F" by (rule scanFunction_frame)
      with assms show "blocks F' = blocks F"
        by (auto simp: runOn_Function_processed [OF True sf] split: if_splits)
    qed
  next
    case False
    from assms show ?thesis by (simp add: runOn_Function_skipped [OF False])
  qed
  show "MetadataInfo_Covered \<notin> set (MIS st') \<longrightarrow> F_MD_pcsections F' = F_MD_pcsections F"
  proof (cases "processed F")
    case True
    from assms show ?thesis
      by (auto simp: runOn_Function_processed [OF True sf] set_SetVector_insert split: if_splits)
  next
    case False
    from assms show ?thesis by (simp add: runOn_Function_skipped [OF False])
  qed
qed

lemma runOnFunctions_frame:
  "runOnFunctions K Options Fs st = (Fs', st') \<Longrightarrow>
   (MetadataInfo_Atomics \<notin> set (MIS st') \<longrightarrow> map blocks Fs' = map blocks Fs) \<and>
   (MetadataInfo_Covered \<notin> set (MIS st') \<longrightarrow>
      map F_MD_pcsections Fs' = map F_MD_pcsections Fs)"
proof (induction Fs arbitrary: st Fs' st')
  case Nil
  then show ?case by simp
next
  case (Cons F Fs)
  obtain F1 st1 where f: "runOn_Function K Options F st = (F1, st1)"
    by (cases "runOn_Function K Options F st") auto
  obtain Fs2 st2 where r: "runOnFunctions K Options Fs st1 = (Fs2, st2)"
    by (cases "runOnFunctions K Options Fs st1") auto
  from Cons.prems f r have res: "Fs' = F1 # Fs2" "st' = st2" by simp_all
  note a = runOn_Function_frame [OF f]
  note b = Cons.IH [OF r]
  note k = runOnFunctions_kinds [OF r]
  have 1: "MetadataInfo_Atomics \<notin> set (MIS st') \<longrightarrow> map blocks Fs' = map blocks (F # Fs)"
  proof
    assume n: "MetadataInfo_Atomics \<notin> set (MIS st')"
    then have "MetadataInfo_Atomics \<notin> set (MIS st1)" using k by (simp add: res)
    with a(1) b n show "map blocks Fs' = map blocks (F # Fs)" by (simp add: res)
  qed
  have 2: "MetadataInfo_Covered \<notin> set (MIS st') \<longrightarrow>
      map F_MD_pcsections Fs' = map F_MD_pcsections (F # Fs)"
  proof
    assume n: "MetadataInfo_Covered \<notin> set (MIS st')"
    then have "MetadataInfo_Covered \<notin> set (MIS st1)" using k by (simp add: res)
    with a(2) b n show "map F_MD_pcsections Fs' = map F_MD_pcsections (F # Fs)"
      by (simp add: res)
  qed
  from 1 2 show ?case by simp
qed

section \<open>The claims\<close>

text \<open>
  C1, as stated, fails: with the Atomics option enabled the mask with which instruction
  scanning starts already has the Atomics bit, and a function without any memory instruction
  gets a Coverage record carrying that bit.
\<close>

theorem initial_mask_counterexample:
  "getEnabledPerInstructionFeature example_consts only_atomics
     AND kSanitizerBinaryMetadataAtomics example_consts \<noteq> 0 \<and>
   F_MD_pcsections (fst (runOn_Function example_consts
       \<lparr>Covered = True, Atomics = True, UAR = False\<rparr> (example_function [ret_inst]) initial_state))
     = Some (coverageRecord example_consts (kSanitizerBinaryMetadataAtomics example_consts))"
  by (simp add: getEnabledPerInstructionFeature_def example_consts_def only_atomics_def
      runOn_Function_def scanFunction_eq Let_def example_function_def ret_inst_def plain_inst_def
      scanMask_def coverageRecord_def getSectionName_def initial_state_def)

text \<open>
  C1, amended. In the function aggregator the mask at the start of instruction scanning is
  the Atomics bit when the Atomics option is enabled and zero otherwise, so the option alone
  contributes the Atomics bit. The UAR bit (distinct from the Atomics bit) is clear at the
  start. Classifying an instruction changes the mask only by setting the UAR bit, when UAR
  tracking is enabled, the bit is not yet set and the instruction is use-after-return unsafe;
  it leaves the Atomics bit as it was. So the final mask of a function is the starting mask,
  with the UAR bit added exactly when UAR tracking is enabled and some instruction of the
  function is use-after-return unsafe, and cleared again for a variadic function: its
  Atomics bit is that of the option, its UAR bit is set only on account of a classified
  instruction, and it is the payload of the Coverage record the function gets.
\<close>

theorem initial_mask_and_classification:
  "getEnabledPerInstructionFeature K Options =
     (if Atomics Options then kSanitizerBinaryMetadataAtomics K else 0) \<and>
   (kSanitizerBinaryMetadataAtomics K AND kSanitizerBinaryMetadataUAR K = 0 \<longrightarrow>
      getEnabledPerInstructionFeature K Options AND kSanitizerBinaryMetadataUAR K = 0) \<and>
   (case runOn_Instruction K Options I st FM of
      (I', st', FM', RequiresCovered) \<Rightarrow>
        FM' = (if UAR Options \<and> FM AND kSanitizerBinaryMetadataUAR K = 0 \<and> useAfterReturnUnsafe I
               then FM OR kSanitizerBinaryMetadataUAR K else FM) \<and>
        (kSanitizerBinaryMetadataAtomics K AND kSanitizerBinaryMetadataUAR K = 0 \<longrightarrow>
           FM' AND kSanitizerBinaryMetadataAtomics K = FM AND kSanitizerBinaryMetadataAtomics K)) \<and>
   (case scanFunction K Options F st of
      (bbs, st1, FeatureMask1, RequiresCovered) \<Rightarrow>
        FeatureMask1 =
          (let FM0 = (if Atomics Options then kSanitizerBinaryMetadataAtomics K else 0);
               FM1 = (if UAR Options \<and> FM0 AND kSanitizerBinaryMetadataUAR K = 0 \<and>
                         (\<exists>J \<in> set (concat (blocks F)). useAfterReturnUnsafe J)
                      then FM0 OR kSanitizerBinaryMetadataUAR K else FM0)
           in if isVarArg F then FM1 AND NOT (kSanitizerBinaryMetadataUAR K) else FM1) \<and>
        (kSanitizerBinaryMetadataAtomics K AND kSanitizerBinaryMetadataUAR K = 0 \<longrightarrow>
           FeatureMask1 AND kSanitizerBinaryMetadataAtomics K
             = (if Atomics Options then kSanitizerBinaryMetadataAtomics K else 0) \<and>
           (FeatureMask1 AND kSanitizerBinaryMetadataUAR K \<noteq> 0 \<longrightarrow>
              UAR Options \<and> \<not> isVarArg F \<and>
              (\<exists>J \<in> set (concat (blocks F)). useAfterReturnUnsafe J))) \<and>
        (processed F \<and> (Covered Options \<or> (FeatureMask1 \<noteq> 0 \<and> RequiresCovered)) \<longrightarrow>
           F_MD_pcsections (fst (runOn_Function K Options F st))
             = Some (coverageRecord K FeatureMask1)))"
proof -
  have one: "getEnabledPerInstructionFeature K Options =
     (if Atomics Options then kSanitizerBinaryMetadataAtomics K else 0) \<and>
   (kSanitizerBinaryMetadataAtomics K AND kSanitizerBinaryMetadataUAR K = 0 \<longrightarrow>
      getEnabledPerInstructionFeature K Options AND kSanitizerBinaryMetadataUAR K = 0) \<and>
   (case runOn_Instruction K Options I st FM of
      (I', st', FM', RequiresCovered) \<Rightarrow>
        FM' = (if UAR Options \<and> FM AND kSanitizerBinaryMetadataUAR K = 0 \<and> useAfterReturnUnsafe I
               then FM OR kSanitizerBinaryMetadataUAR K else FM) \<and>
        (kSanitizerBinaryMetadataAtomics K AND kSanitizerBinaryMetadataUAR K = 0 \<longrightarrow>
           FM' AND kSanitizerBinaryMetadataAtomics K = FM AND kSanitizerBinaryMetadataAtomics K))"
    by (simp add: getEnabledPerInstructionFeature_def runOn_Instruction_eq and_or_distinct)
  obtain bbs st1 FM1 rc where sf: "scanFunction K Options F st = (bbs, st1, FM1, rc)"
    by (cases "scanFunction K Options F st") auto
  note m = scanFunction_mask [OF sf]
  note b = scanFunction_mask_bits [OF sf]
  have cov: "processed F \<and> (Covered Options \<or> (FM1 \<noteq> 0 \<and> rc)) \<longrightarrow>
           F_MD_pcsections (fst (runOn_Function K Options F st)) = Some (coverageRecord K FM1)"
  proof
    assume h: "processed F \<and> (Covered Options \<or> (FM1 \<noteq> 0 \<and> rc))"
    then have p: "processed F" by simp
    from h show "F_MD_pcsections (fst (runOn_Function K Options F st))
        = Some (coverageRecord K FM1)"
      by (simp add: runOn_Function_processed [OF p sf])
  qed
  have two: "case scanFunction K Options F st of
      (bbs, st1, FeatureMask1, RequiresCovered) \<Rightarrow>
        FeatureMask1 =
          (let FM0 = (if Atomics Options then kSanitizerBinaryMetadataAtomics K else 0);
               FM1 = (if UAR Options \<and> FM0 AND kSanitizerBinaryMetadataUAR K = 0 \<and>
                         (\<exists>J \<in> set (concat (blocks F)). useAfterReturnUnsafe J)
                      then FM0 OR kSanitizerBinaryMetadataUAR K else FM0)
           in if isVarArg F then FM1 AND NOT (kSanitizerBinaryMetadataUAR K) else FM1) \<and>
        (kSanitizerBinaryMetadataAtomics K AND kSanitizerBinaryMetadataUAR K = 0 \<longrightarrow>
           FeatureMask1 AND kSanitizerBinaryMetadataAtomics K
             = (if Atomics Options then kSanitizerBinaryMetadataAtomics K else 0) \<and>
           (FeatureMask1 AND kSanitizerBinaryMetadataUAR K \<noteq> 0 \<longrightarrow>
              UAR Options \<and> \<not> isVarArg F \<and>
              (\<exists>J \<in> set (concat (blocks F)). useAfterReturnUnsafe J))) \<and>
        (processed F \<and> (Covered Options \<or> (FeatureMask1 \<noteq> 0 \<and> RequiresCovered)) \<longrightarrow>
           F_MD_pcsections (fst (runOn_Function K Options F st))
             = Some (coverageRecord K FeatureMask1))"
    unfolding sf prod.case
  proof (intro conjI impI)
    show "FM1 =
          (let FM0 = (if Atomics Options then kSanitizerBinaryMetadataAtomics K else 0);
               FM1 = (if UAR Options \<and> FM0 AND kSanitizerBinaryMetadataUAR K = 0 \<and>
                         (\<exists>J \<in> set (concat (blocks F)). useAfterReturnUnsafe J)
                      then FM0 OR kSanitizerBinaryMetadataUAR K else FM0)
           in if isVarArg F then FM1 AND NOT (kSanitizerBinaryMetadataUAR K) else FM1)"
      by (rule m)
  next
    assume d: "kSanitizerBinaryMetadataAtomics K AND kSanitizerBinaryMetadataUAR K = 0"
    show "FM1 AND kSanitizerBinaryMetadataAtomics K
             = (if Atomics Options then kSanitizerBinaryMetadataAtomics K else 0)"
      by (rule b(1) [OF d])
  next
    assume d: "kSanitizerBinaryMetadataAtomics K AND kSanitizerBinaryMetadataUAR K = 0"
      and nz: "FM1 AND kSanitizerBinaryMetadataUAR K \<noteq> 0"
    from b(2) [OF d] nz show "UAR Options" by simp
    from b(2) [OF d] nz show "\<not> isVarArg F" by simp
    from b(2) [OF d] nz show "\<exists>J \<in> set (concat (blocks F)). useAfterReturnUnsafe J" by simp
  next
    assume "processed F \<and> (Covered Options \<or> FM1 \<noteq> 0 \<and> rc)"
    with cov show "F_MD_pcsections (fst (runOn_Function K Options F st))
        = Some (coverageRecord K FM1)" by simp
  qed
  from one two show ?thesis by simp
qed


theorem initial_mask_and_classification_witness:
  "kSanitizerBinaryMetadataAtomics example_consts AND kSanitizerBinaryMetadataUAR example_consts = 0 \<and>
   getEnabledPerInstructionFeature example_consts only_atomics = 1 \<and>
   getEnabledPerInstructionFeature example_consts only_uar = 0 \<and>
   fst (snd (snd (runOn_Instruction example_consts only_uar escaping_alloca initial_state 0))) = 2 \<and>
   fst (snd (snd (runOn_Instruction example_consts only_atomics atomic_load initial_state 1))) = 1 \<and>
   fst (snd (snd (scanFunction example_consts only_uar
       (example_function [escaping_alloca, ret_inst]) initial_state))) = 2 \<and>
   fst (snd (snd (scanFunction example_consts only_uar
       (example_function [safe_alloca, ret_inst]) initial_state))) = 0 \<and>
   fst (snd (snd (scanFunction example_consts only_atomics
       (example_function [ret_inst]) initial_state))) = 1"
  using initial_mask_and_classification [where K = example_consts and Options = only_atomics
      and I = atomic_load and st = initial_state and FM = 1 and F = "example_function [ret_inst]"]
    initial_mask_and_classification [where K = example_consts and Options = only_uar
      and I = escaping_alloca and st = initial_state and FM = 0
      and F = "example_function [escaping_alloca, ret_inst]"]
  by (simp add: example_consts_def only_atomics_def only_uar_def escaping_alloca_def safe_alloca_def
      ret_inst_def plain_inst_def example_function_def initial_state_def
      useAfterReturnUnsafe_def getOperand_def isUARSafeCall_def startswith_def
      scanFunction_eq scanMask_def getEnabledPerInstructionFeature_def Let_def
      split: prod.splits)

text \<open>
  C2, as stated, fails: for the module with one function holding a single atomic load of
  system scope, with only Atomics enabled, the run creates two registration/deregistration
  pairs, one for Atomics and one for Coverage.
\<close>

theorem two_pairs_counterexample:
  "map st_func (global_ctors (fst (snd (run example_consts only_atomics
       (example_module [example_function [atomic_load, ret_inst]]) initial_state))))
     = [''__sanitizer_metadata_atomics.module_ctor'', ''__sanitizer_metadata_covered.module_ctor''] \<and>
   map st_func (global_dtors (fst (snd (run example_consts only_atomics
       (example_module [example_function [atomic_load, ret_inst]]) initial_state))))
     = [''__sanitizer_metadata_atomics.module_dtor'', ''__sanitizer_metadata_covered.module_dtor'']"
  by (simp add: eval_defs)

text \<open>
  C2, amended. For a module with exactly one function, whose body is a single atomic load of
  sequentially-consistent, system-wide scope followed by a terminator that does not touch
  memory, with only Atomics enabled (the Atomics bit being non-zero and disjoint from the UAR
  bit): the load carries the Atomics record with no payload, the function carries the
  Coverage record whose mask is the Atomics bit, the kind set is Atomics then Coverage, and
  the module gets two registration/deregistration pairs, for Atomics and for Coverage in that
  order.
\<close>

theorem single_atomic_load_scenario:
  assumes "kSanitizerBinaryMetadataAtomics K \<noteq> 0"
    and "kSanitizerBinaryMetadataAtomics K AND kSanitizerBinaryMetadataUAR K = 0"
    and "Functions Mod = [F]" and "processed F" and "blocks F = [[I, T]]"
    and "kind (props I) = LoadInst" and "mayReadOrWriteMemory (props I)"
    and "getAtomicSyncScopeID (props I) = Some System"
    and "\<not> mayReadOrWriteMemory (props T)"
  shows "(case run K only_atomics Mod st0 of
            (changed, M', st') \<Rightarrow>
              changed \<and>
              Functions M' =
                [F\<lparr>blocks := [[setMetadata I (atomicsRecord K), T]],
                   F_MD_pcsections :=
                     Some (coverageRecord K (kSanitizerBinaryMetadataAtomics K))\<rparr>] \<and>
              MIS st' = [MetadataInfo_Atomics, MetadataInfo_Covered] \<and>
              entry_points M' = entry_points Mod @
                registrationPair K (getVersion Mod) (supportsCOMDAT Mod) MetadataInfo_Atomics @
                registrationPair K (getVersion Mod) (supportsCOMDAT Mod) MetadataInfo_Covered \<and>
              global_ctors M' = global_ctors Mod @
                [ctorEntry (supportsCOMDAT Mod) MetadataInfo_Atomics,
                 ctorEntry (supportsCOMDAT Mod) MetadataInfo_Covered] \<and>
              global_dtors M' = global_dtors Mod @
                [dtorEntry (supportsCOMDAT Mod) MetadataInfo_Atomics,
                 dtorEntry (supportsCOMDAT Mod) MetadataInfo_Covered])"
proof -
  let ?st = "st0\<lparr>MIS := []\<rparr>"
  have attI: "attachesAtomics only_atomics I"
    using assms(7,8) by (simp add: attachesAtomics_def only_atomics_def)
  have attT: "\<not> attachesAtomics only_atomics T"
    using assms(9) by (simp add: attachesAtomics_def)
  have fm0: "getEnabledPerInstructionFeature K only_atomics = kSanitizerBinaryMetadataAtomics K"
    by (simp add: getEnabledPerInstructionFeature_def only_atomics_def)
  have mask: "scanMask K only_atomics Is FM = FM" for Is FM
    by (simp add: scanMask_def only_atomics_def)
  have o: "Atomics only_atomics" "\<not> UAR only_atomics" "\<not> Covered only_atomics"
    by (simp_all add: only_atomics_def)
  have stt: "scanState only_atomics [I, T] ?st =
      ?st\<lparr>MIS := [MetadataInfo_Atomics], NumMetadataAtomics := NumMetadataAtomics st0 + 1\<rparr>"
    using attI attT by (simp add: scanState_def SetVector_insert_def)
  have cl: "classified K only_atomics I = setMetadata I (atomicsRecord K)"
    "classified K only_atomics T = T"
    using attI attT by (simp_all add: classified_def)
  have fm2: "kSanitizerBinaryMetadataAtomics K AND NOT (kSanitizerBinaryMetadataUAR K)
      = kSanitizerBinaryMetadataAtomics K"
    using assms(2) by (rule and_not_disjoint)
  have sf: "scanFunction K only_atomics F ?st =
      ([[setMetadata I (atomicsRecord K), T]],
       ?st\<lparr>MIS := [MetadataInfo_Atomics], NumMetadataAtomics := NumMetadataAtomics st0 + 1\<rparr>,
       kSanitizerBinaryMetadataAtomics K, True)"
    using assms(1,7)
    by (simp add: scanFunction_eq Let_def fm0 mask fm2 assms(2) stt cl assms(5) o)
  have rf: "runOnFunctions K only_atomics (Functions Mod) ?st =
      ([F\<lparr>blocks := [[setMetadata I (atomicsRecord K), T]],
          F_MD_pcsections := Some (coverageRecord K (kSanitizerBinaryMetadataAtomics K))\<rparr>],
       ?st\<lparr>MIS := [MetadataInfo_Atomics, MetadataInfo_Covered],
           NumMetadataAtomics := NumMetadataAtomics st0 + 1,
           NumMetadataCovered := NumMetadataCovered st0 + 1\<rparr>)"
    using assms(1)
    by (simp add: assms(3) runOn_Function_processed [OF assms(4) sf] SetVector_insert_def o)
  obtain changed M' st' where r: "run K only_atomics Mod st0 = (changed, M', st')"
    by (cases "run K only_atomics Mod st0") auto
  note e = run_emits [OF r]
  from e(1) rf have "Functions M' =
      [F\<lparr>blocks := [[setMetadata I (atomicsRecord K), T]],
          F_MD_pcsections := Some (coverageRecord K (kSanitizerBinaryMetadataAtomics K))\<rparr>]"
    and m: "MIS st' = [MetadataInfo_Atomics, MetadataInfo_Covered]"
    by auto
  with e(2,4,5,6) show ?thesis
    by (simp add: r)
qed

theorem single_atomic_load_scenario_witness:
  "kSanitizerBinaryMetadataAtomics example_consts \<noteq> 0 \<and>
   kSanitizerBinaryMetadataAtomics example_consts AND kSanitizerBinaryMetadataUAR example_consts = 0 \<and>
   processed (example_function [atomic_load, ret_inst]) \<and>
   kind (props atomic_load) = LoadInst \<and> mayReadOrWriteMemory (props atomic_load) \<and>
   getAtomicSyncScopeID (props atomic_load) = Some System \<and>
   \<not> mayReadOrWriteMemory (props ret_inst) \<and>
   map ep_name (entry_points (fst (snd (run example_consts only_atomics
       (example_module [example_function [atomic_load, ret_inst]]) initial_state))))
     = [''__sanitizer_metadata_atomics.module_ctor'', ''__sanitizer_metadata_atomics.module_dtor'',
        ''__sanitizer_metadata_covered.module_ctor'', ''__sanitizer_metadata_covered.module_dtor''] \<and>
   map F_MD_pcsections (Functions (fst (snd (run example_consts only_atomics
       (example_module [example_function [atomic_load, ret_inst]]) initial_state))))
     = [Some [(''sanmd_covered'', [1])]]"
proof -
  have h: "kSanitizerBinaryMetadataAtomics example_consts \<noteq> 0"
    "kSanitizerBinaryMetadataAtomics example_consts AND kSanitizerBinaryMetadataUAR example_consts = 0"
    "Functions (example_module [example_function [atomic_load, ret_inst]])
       = [example_function [atomic_load, ret_inst]]"
    "processed (example_function [atomic_load, ret_inst])"
    "blocks (example_function [atomic_load, ret_inst]) = [[atomic_load, ret_inst]]"
    "kind (props atomic_load) = LoadInst" "mayReadOrWriteMemory (props atomic_load)"
    "getAtomicSyncScopeID (props atomic_load) = Some System"
    "\<not> mayReadOrWriteMemory (props ret_inst)"
    by (simp_all add: example_consts_def example_module_def example_function_def processed_def
        atomic_load_def ret_inst_def plain_inst_def)
  from single_atomic_load_scenario [OF h, of initial_state] h show ?thesis
    by (simp add: registrationPair_def coverageRecord_def example_consts_def example_module_def
        split: prod.splits)
qed

text \<open>
  C3, as stated, fails in its constructor half: the constructor entry of the registration
  entry point has priority 2, which is below the default priority 65535, so it is not placed
  after the default-priority constructors; ordinary static initializers do not run before
  the registration.
\<close>

theorem priority_counterexample:
  "\<not> ctorPlacedAfterDefault 65535 (hd (global_ctors (fst (snd (run example_consts only_atomics
       (example_module [example_function [atomic_load, ret_inst]]) initial_state)))))"
  by (simp add: eval_defs ctorPlacedAfterDefault_def)

text \<open>
  C3, amended. The registration entry point of every kind in the kind set is appended to the
  module's constructor list and the deregistration entry point to the destructor list, both
  at the fixed priority 2. For every default priority greater than 2 this places the
  deregistration after the default-priority destructors (destructors run highest priority
  first), as the claim says, but the registration before, not after, the default-priority
  constructors (constructors run lowest priority first): the registration runs before the
  ordinary static initializers.
\<close>

theorem registration_priority:
  assumes "run K Options Mod st0 = (changed, M', st')"
  shows "global_ctors M' = global_ctors Mod @ map (ctorEntry (supportsCOMDAT Mod)) (MIS st') \<and>
         global_dtors M' = global_dtors Mod @ map (dtorEntry (supportsCOMDAT Mod)) (MIS st') \<and>
         (\<forall>MI c. st_func (ctorEntry c MI) = FunctionPrefix MI @ ''.module_ctor'' \<and>
                 st_func (dtorEntry c MI) = FunctionPrefix MI @ ''.module_dtor'' \<and>
                 st_priority (ctorEntry c MI) = 2 \<and>
                 st_priority (dtorEntry c MI) = 2 \<and>
                 (\<forall>d. 2 < d \<longrightarrow>
                    \<not> ctorPlacedAfterDefault d (ctorEntry c MI) \<and>
                    dtorPlacedAfterDefault d (dtorEntry c MI)))"
  using run_emits(5,6) [OF assms]
  by (simp add: ctorEntry_def dtorEntry_def kCtorDtorPriority_def ctorPlacedAfterDefault_def
      dtorPlacedAfterDefault_def)

theorem registration_priority_witness:
  "map st_priority (global_ctors (fst (snd (run example_consts only_atomics
       (example_module [example_function [atomic_load, ret_inst]]) initial_state)))) = [2, 2] \<and>
   map st_priority (global_dtors (fst (snd (run example_consts only_atomics
       (example_module [example_function [atomic_load, ret_inst]]) initial_state)))) = [2, 2] \<and>
   (2::int) < 65535 \<and>
   \<not> ctorPlacedAfterDefault 65535 (ctorEntry True MetadataInfo_Atomics) \<and>
   dtorPlacedAfterDefault 65535 (dtorEntry True MetadataInfo_Atomics)"
proof -
  let ?r = "run example_consts only_atomics
       (example_module [example_function [atomic_load, ret_inst]]) initial_state"
  have r: "?r = (fst ?r, fst (snd ?r), snd (snd ?r))"
    by simp
  have m: "MIS (snd (snd ?r)) = [MetadataInfo_Atomics, MetadataInfo_Covered]"
    by (simp add: eval_defs)
  have g: "global_ctors (example_module [example_function [atomic_load, ret_inst]]) = []"
    "global_dtors (example_module [example_function [atomic_load, ret_inst]]) = []"
    "supportsCOMDAT (example_module [example_function [atomic_load, ret_inst]])"
    by (simp_all add: example_module_def)
  from registration_priority [OF r] show ?thesis
    by (simp add: m g ctorEntry_def dtorEntry_def kCtorDtorPriority_def
        ctorPlacedAfterDefault_def dtorPlacedAfterDefault_def)
qed

text \<open>
  C4. When Atomics tracking is enabled, classifying an instruction that may touch memory and
  is atomic with a scope other than single-thread attaches the Atomics record to it, enters
  Atomics into the kind set, reports that coverage is required and keeps the Atomics bit of
  the mask. In a function that contains the instruction (the Atomics bit being a non-zero
  mask disjoint from the UAR bit), the scanned instruction carries the record, the final mask
  has the Atomics bit and the function is marked as requiring coverage.
\<close>

theorem atomic_instruction_classified:
  assumes "Atomics Options"
    and "mayReadOrWriteMemory (props I)"
    and "getAtomicSyncScopeID (props I) = Some SSID"
    and "SSID \<noteq> SingleThread"
  shows "(case runOn_Instruction K Options I st FM of
            (I', st', FM', RequiresCovered) \<Rightarrow>
              MD_pcsections (props I') = Some (atomicsRecord K) \<and>
              MetadataInfo_Atomics \<in> set (MIS st') \<and>
              RequiresCovered \<and>
              (FM AND kSanitizerBinaryMetadataAtomics K = kSanitizerBinaryMetadataAtomics K \<longrightarrow>
               FM' AND kSanitizerBinaryMetadataAtomics K = kSanitizerBinaryMetadataAtomics K)) \<and>
         (kSanitizerBinaryMetadataAtomics K \<noteq> 0 \<and>
          kSanitizerBinaryMetadataAtomics K AND kSanitizerBinaryMetadataUAR K = 0 \<and>
          b < length (blocks F) \<and> i < length (blocks F ! b) \<and> blocks F ! b ! i = I \<longrightarrow>
          (case scanFunction K Options F st of
             (bbs, st1, FeatureMask1, RequiresCovered) \<Rightarrow>
               MD_pcsections (props (bbs ! b ! i)) = Some (atomicsRecord K) \<and>
               FeatureMask1 AND kSanitizerBinaryMetadataAtomics K = kSanitizerBinaryMetadataAtomics K \<and>
               RequiresCovered))"
proof -
  have att: "attachesAtomics Options I"
    using assms by (rule attachesAtomicsI)
  have one: "case runOn_Instruction K Options I st FM of
            (I', st', FM', RequiresCovered) \<Rightarrow>
              MD_pcsections (props I') = Some (atomicsRecord K) \<and>
              MetadataInfo_Atomics \<in> set (MIS st') \<and>
              RequiresCovered \<and>
              (FM AND kSanitizerBinaryMetadataAtomics K = kSanitizerBinaryMetadataAtomics K \<longrightarrow>
               FM' AND kSanitizerBinaryMetadataAtomics K = kSanitizerBinaryMetadataAtomics K)"
    using att assms(1,2)
    by (simp add: runOn_Instruction_eq props_setMetadata SetVector_insert_def or_keeps)
  have two: "kSanitizerBinaryMetadataAtomics K \<noteq> 0 \<and>
          kSanitizerBinaryMetadataAtomics K AND kSanitizerBinaryMetadataUAR K = 0 \<and>
          b < length (blocks F) \<and> i < length (blocks F ! b) \<and> blocks F ! b ! i = I \<longrightarrow>
          (case scanFunction K Options F st of
             (bbs, st1, FeatureMask1, RequiresCovered) \<Rightarrow>
               MD_pcsections (props (bbs ! b ! i)) = Some (atomicsRecord K) \<and>
               FeatureMask1 AND kSanitizerBinaryMetadataAtomics K = kSanitizerBinaryMetadataAtomics K \<and>
               RequiresCovered)"
  proof (rule impI)
    assume h: "kSanitizerBinaryMetadataAtomics K \<noteq> 0 \<and>
          kSanitizerBinaryMetadataAtomics K AND kSanitizerBinaryMetadataUAR K = 0 \<and>
          b < length (blocks F) \<and> i < length (blocks F ! b) \<and> blocks F ! b ! i = I"
    then have k: "kSanitizerBinaryMetadataAtomics K \<noteq> 0"
      "kSanitizerBinaryMetadataAtomics K AND kSanitizerBinaryMetadataUAR K = 0"
      and pos: "b < length (blocks F)" "i < length (blocks F ! b)" "blocks F ! b ! i = I"
      by simp_all
    have fm0: "getEnabledPerInstructionFeature K Options = kSanitizerBinaryMetadataAtomics K"
      using assms(1) by (simp add: getEnabledPerInstructionFeature_def)
    have mem: "\<exists>J \<in> set (concat (blocks F)). mayReadOrWriteMemory (props J)"
      using nth_nth_in_concat [OF pos(1,2)] pos(3) assms(2) by blast
    have md: "MD_pcsections (props (map (map (classified K Options)) (blocks F) ! b ! i))
        = Some (atomicsRecord K)"
      using att pos by (simp add: classified_def props_setMetadata)
    have m1: "scanMask K Options (concat (blocks F)) (kSanitizerBinaryMetadataAtomics K)
        AND kSanitizerBinaryMetadataAtomics K = kSanitizerBinaryMetadataAtomics K"
      by (rule scanMask_keeps) simp
    have m2: "(scanMask K Options (concat (blocks F)) (kSanitizerBinaryMetadataAtomics K)
        AND NOT (kSanitizerBinaryMetadataUAR K))
        AND kSanitizerBinaryMetadataAtomics K = kSanitizerBinaryMetadataAtomics K"
      using k(2) m1 by (rule and_not_keeps)
    show "case scanFunction K Options F st of
             (bbs, st1, FeatureMask1, RequiresCovered) \<Rightarrow>
               MD_pcsections (props (bbs ! b ! i)) = Some (atomicsRecord K) \<and>
               FeatureMask1 AND kSanitizerBinaryMetadataAtomics K = kSanitizerBinaryMetadataAtomics K \<and>
               RequiresCovered"
      using k(1) fm0 mem md m1 m2 assms(1)
      by (simp add: scanFunction_eq Let_def)
  qed
  from one two show ?thesis by (rule conjI)
qed


theorem atomic_instruction_classified_witness:
  "Atomics only_atomics \<and> mayReadOrWriteMemory (props atomic_load) \<and>
   getAtomicSyncScopeID (props atomic_load) = Some System \<and> System \<noteq> SingleThread \<and>
   MD_pcsections (props (fst (runOn_Instruction example_consts only_atomics atomic_load
       initial_state 1))) = Some [(''sanmd_atomics'', [])] \<and>
   fst (snd (snd (scanFunction example_consts only_atomics
       (example_function [atomic_load, ret_inst]) initial_state))) = 1 \<and>
   snd (snd (snd (scanFunction example_consts only_atomics
       (example_function [atomic_load, ret_inst]) initial_state)))"
proof -
  have h: "Atomics only_atomics" "mayReadOrWriteMemory (props atomic_load)"
    "getAtomicSyncScopeID (props atomic_load) = Some System" "System \<noteq> SingleThread"
    by (simp_all add: only_atomics_def atomic_load_def plain_inst_def)
  have p: "kSanitizerBinaryMetadataAtomics example_consts \<noteq> 0 \<and>
      kSanitizerBinaryMetadataAtomics example_consts AND kSanitizerBinaryMetadataUAR example_consts = 0 \<and>
      0 < length (blocks (example_function [atomic_load, ret_inst])) \<and>
      0 < length (blocks (example_function [atomic_load, ret_inst]) ! 0) \<and>
      blocks (example_function [atomic_load, ret_inst]) ! 0 ! 0 = atomic_load"
    by (simp add: example_consts_def example_function_def)
  from atomic_instruction_classified [OF h, where K = example_consts and st = initial_state
      and FM = 1 and b = 0 and i = 0 and F = "example_function [atomic_load, ret_inst]"] p
  have "(case runOn_Instruction example_consts only_atomics atomic_load initial_state 1 of
            (I', st', FM', RequiresCovered) \<Rightarrow>
              MD_pcsections (props I') = Some (atomicsRecord example_consts)) \<and>
        (case scanFunction example_consts only_atomics
            (example_function [atomic_load, ret_inst]) initial_state of
             (bbs, st1, FeatureMask1, RequiresCovered) \<Rightarrow>
               FeatureMask1 AND kSanitizerBinaryMetadataAtomics example_consts
                 = kSanitizerBinaryMetadataAtomics example_consts \<and>
               RequiresCovered)"
    by (simp split: prod.splits)
  with h show ?thesis
    by (simp add: runOn_Instruction_eq scanFunction_eq Let_def atomicsRecord_def example_consts_def
        getEnabledPerInstructionFeature_def only_atomics_def scanMask_def split: prod.splits)
qed

text \<open>
  C5. For every function that accepts a variable number of arguments, the UAR bit is clear in
  the final per-function feature mask, whatever the instruction scan set; a Coverage record
  emitted for such a function (the counter of covered functions goes up by one) carries a
  payload with the UAR bit clear, and when none is emitted the function's attachment is left
  as it was.
\<close>

theorem variadic_function_never_UAR:
  assumes "isVarArg F"
  shows "(case scanFunction K Options F st of
            (bbs, st1, FeatureMask1, RequiresCovered) \<Rightarrow>
              FeatureMask1 AND kSanitizerBinaryMetadataUAR K = 0) \<and>
         (case runOn_Function K Options F st of
            (F', st') \<Rightarrow>
              (NumMetadataCovered st' = NumMetadataCovered st \<and>
               F_MD_pcsections F' = F_MD_pcsections F) \<or>
              (NumMetadataCovered st' = NumMetadataCovered st + 1 \<and>
               (\<exists>m. F_MD_pcsections F' = Some (coverageRecord K m) \<and>
                    m AND kSanitizerBinaryMetadataUAR K = 0)))"
proof -
  obtain bbs st1 FM rc where sf: "scanFunction K Options F st = (bbs, st1, FM, rc)"
    by (cases "scanFunction K Options F st") auto
  have m: "FM AND kSanitizerBinaryMetadataUAR K = 0"
    using assms sf by (rule scanFunction_mask_vararg)
  have c: "NumMetadataCovered st1 = NumMetadataCovered st"
    using sf by (rule scanFunction_NumMetadataCovered)
  show ?thesis
    using m c by (simp add: runOn_Function_def sf coverageRecord_def getSectionName_def)
qed

theorem variadic_function_never_UAR_witness:
  "isVarArg ((example_function [escaping_alloca, ret_inst])\<lparr>isVarArg := True\<rparr>) \<and>
   fst (snd (snd (scanFunction example_consts only_uar
      ((example_function [escaping_alloca, ret_inst])\<lparr>isVarArg := True\<rparr>) initial_state))) = 0 \<and>
   fst (snd (snd (scanFunction example_consts only_uar
      (example_function [escaping_alloca, ret_inst]) initial_state))) = 2"
  using variadic_function_never_UAR [of "(example_function [escaping_alloca, ret_inst])\<lparr>isVarArg := True\<rparr>"
      example_consts only_uar initial_state]
  by (simp add: scanFunction_eq Let_def example_function_def escaping_alloca_def ret_inst_def
      plain_inst_def example_consts_def only_uar_def initial_state_def scanMask_def
      getEnabledPerInstructionFeature_def useAfterReturnUnsafe_def getOperand_def)

text \<open>
  C6. If the kind set is empty after every function has been processed, the module driver
  returns "no change" and hands back the module exactly as it was: no section marker, no entry
  point, no constructor or destructor entry and no version constant is added; the pass then
  reports that all analyses are preserved.
\<close>

theorem empty_kind_set_no_change:
  assumes "MIS (snd (runOnFunctions K Options (Functions Mod) (st0\<lparr>MIS := []\<rparr>))) = []"
  shows "fst (run K Options Mod st0) = False \<and>
         fst (snd (run K Options Mod st0)) = Mod \<and>
         ((NDEBUG \<or> isOSBinFormatELF Mod) \<and> Options = transformOptionsFromCl cl Opts \<longrightarrow>
            (\<exists>st'. SanitizerBinaryMetadataPass_run NDEBUG K cl Opts Mod st0
                     = Inr (PreservedAnalyses_all, Mod, st')))"
proof -
  obtain Fs st where r: "runOnFunctions K Options (Functions Mod) (st0\<lparr>MIS := []\<rparr>) = (Fs, st)"
    by (cases "runOnFunctions K Options (Functions Mod) (st0\<lparr>MIS := []\<rparr>)") auto
  with assms have m: "MIS st = []" by simp
  with runOnFunctions_kinds [OF r] have "Fs = Functions Mod" by simp
  then have run: "run K Options Mod st0 = (False, Mod, st)"
    by (simp add: run_eq r m)
  then show ?thesis
    by (auto simp: SanitizerBinaryMetadataPass_run_def)
qed

theorem empty_kind_set_no_change_witness:
  "MIS (snd (runOnFunctions example_consts only_atomics
      (Functions (example_module [(example_function [])\<lparr>blocks := []\<rparr>, example_function [ret_inst]]))
      (initial_state\<lparr>MIS := []\<rparr>))) = [] \<and>
   run example_consts only_atomics
      (example_module [(example_function [])\<lparr>blocks := []\<rparr>, example_function [ret_inst]])
      initial_state
    = (False, example_module [(example_function [])\<lparr>blocks := []\<rparr>, example_function [ret_inst]],
       initial_state)"
  using empty_kind_set_no_change [where K = example_consts and Options = only_atomics
      and Mod = "example_module [(example_function [])\<lparr>blocks := []\<rparr>, example_function [ret_inst]]"
      and ?st0.0 = initial_state and cl = no_cl_flags and Opts = only_atomics]
  by (simp add: eval_defs)

text \<open>
  C7. The format version of a module has the base version constant in bits 0 to 15 and bit 16
  set exactly when the code model is medium or large; every registration and deregistration
  entry point that a run creates passes this one value as its first argument.
\<close>

theorem version_encoding:
  "take_bit 16 (getVersion Mod) = kVersionBase \<and>
   (bit (getVersion Mod) 16 \<longleftrightarrow>
      getCodeModel Mod = Some Medium \<or> getCodeModel Mod = Some Large) \<and>
   (\<forall>ep \<in> set (drop (length (entry_points Mod))
                 (entry_points (fst (snd (run K Options Mod st0))))).
      take 1 (ep_initArgs ep) = [ConstantInt32 (getVersion Mod)])"
proof -
  obtain changed M' st' where r: "run K Options Mod st0 = (changed, M', st')"
    by (cases "run K Options Mod st0") auto
  have "take 1 (ep_initArgs ep) = [ConstantInt32 (getVersion Mod)]"
    if "ep \<in> set (concat (map (registrationPair K (getVersion Mod) (supportsCOMDAT Mod)) L))"
    for ep L
    using that by (auto simp: registrationPair_def registrationArgs_def)
  then have "\<forall>ep \<in> set (drop (length (entry_points Mod)) (entry_points M')).
      take 1 (ep_initArgs ep) = [ConstantInt32 (getVersion Mod)]"
    by (simp add: run_emits(4) [OF r])
  then show ?thesis
    by (simp add: getVersion_low getVersion_bit16 r)
qed

theorem version_encoding_witness:
  "getVersion ((example_module [example_function [atomic_load, ret_inst]])\<lparr>getCodeModel := Some Large\<rparr>)
     = 65537 \<and>
   getVersion (example_module [example_function [atomic_load, ret_inst]]) = 1 \<and>
   map ep_initArgs (entry_points (fst (snd (run example_consts only_atomics
       ((example_module [example_function [atomic_load, ret_inst]])\<lparr>getCodeModel := Some Large\<rparr>)
       initial_state))))
     = [[ConstantInt32 65537, GlobalRef ''__start_sanmd_atomics'', GlobalRef ''__stop_sanmd_atomics''],
        [ConstantInt32 65537, GlobalRef ''__start_sanmd_atomics'', GlobalRef ''__stop_sanmd_atomics''],
        [ConstantInt32 65537, GlobalRef ''__start_sanmd_covered'', GlobalRef ''__stop_sanmd_covered''],
        [ConstantInt32 65537, GlobalRef ''__start_sanmd_covered'', GlobalRef ''__stop_sanmd_covered'']]"
  using version_encoding [where K = example_consts and Options = only_atomics
      and ?st0.0 = initial_state
      and Mod = "(example_module [example_function [atomic_load, ret_inst]])\<lparr>getCodeModel := Some Large\<rparr>"]
  by (simp add: eval_defs)



text \<open>
  C9. When Atomics tracking is enabled, the classifier reports "requires coverage" for every
  instruction that may read or write memory, also when it attaches no record to it; so a
  processed function that contains such an instruction and ends with a non-zero feature mask
  receives the Coverage record with that mask, atomic instruction or not.
\<close>

theorem memory_access_requires_coverage:
  assumes "Atomics Options"
  shows "(mayReadOrWriteMemory (props I) \<longrightarrow>
            (case runOn_Instruction K Options I st FM of
               (I', st', FM', RequiresCovered) \<Rightarrow>
                 RequiresCovered \<and> (\<not> attachesAtomics Options I \<longrightarrow> I' = I))) \<and>
         (processed F \<and> (\<exists>J \<in> set (concat (blocks F)). mayReadOrWriteMemory (props J)) \<longrightarrow>
            (case scanFunction K Options F st of
               (bbs, st1, FeatureMask1, RequiresCovered) \<Rightarrow>
                 FeatureMask1 \<noteq> 0 \<longrightarrow>
                 F_MD_pcsections (fst (runOn_Function K Options F st))
                   = Some (coverageRecord K FeatureMask1)))"
proof (intro conjI impI)
  assume "mayReadOrWriteMemory (props I)"
  with assms show "case runOn_Instruction K Options I st FM of
               (I', st', FM', RequiresCovered) \<Rightarrow>
                 RequiresCovered \<and> (\<not> attachesAtomics Options I \<longrightarrow> I' = I)"
    by (simp add: runOn_Instruction_eq)
next
  assume h: "processed F \<and> (\<exists>J \<in> set (concat (blocks F)). mayReadOrWriteMemory (props J))"
  obtain bbs st1 FM1 rc where sf: "scanFunction K Options F st = (bbs, st1, FM1, rc)"
    by (cases "scanFunction K Options F st") auto
  have "F_MD_pcsections (fst (runOn_Function K Options F st)) = Some (coverageRecord K FM1)"
    if nz: "FM1 \<noteq> 0"
  proof -
    have rc using assms h sf nz by (intro scanFunction_requires [of Options F K st bbs st1 FM1 rc]) auto
    with h nz show ?thesis
      by (simp add: runOn_Function_def processed_def sf coverageRecord_def getSectionName_def)
  qed
  then show "case scanFunction K Options F st of
               (bbs, st1, FeatureMask1, RequiresCovered) \<Rightarrow>
                 FeatureMask1 \<noteq> 0 \<longrightarrow>
                 F_MD_pcsections (fst (runOn_Function K Options F st))
                   = Some (coverageRecord K FeatureMask1)"
    by (simp add: sf)
qed

theorem memory_access_requires_coverage_witness:
  "Atomics only_atomics \<and> mayReadOrWriteMemory (props plain_load) \<and>
   \<not> attachesAtomics only_atomics plain_load \<and>
   processed (example_function [plain_load, ret_inst]) \<and>
   runOn_Instruction example_consts only_atomics plain_load initial_state 1
     = (plain_load, initial_state, 1, True) \<and>
   F_MD_pcsections (fst (runOn_Function example_consts only_atomics
       (example_function [plain_load, ret_inst]) initial_state))
     = Some [(''sanmd_covered'', [1])]"
  using memory_access_requires_coverage [where Options = only_atomics and I = plain_load
      and K = example_consts and st = initial_state and FM = 1
      and F = "example_function [plain_load, ret_inst]"]
  by (simp add: runOn_Instruction_eq runOn_Function_def scanFunction_eq Let_def
      attachesAtomics_def processed_def example_function_def plain_load_def ret_inst_def
      plain_inst_def only_atomics_def example_consts_def getEnabledPerInstructionFeature_def
      scanMask_def scanState_def getSectionName_def coverageRecord_def initial_state_def)

text \<open>
  C10. At the end of a module run a kind is in the kind set if and only if a record of that
  kind was attached during the run. If the kind is in the set, the counter of attached
  records of the kind went up and such a record is on an instruction (Atomics) or a function
  (Coverage) of the module. If Atomics is not in the set, the counter is as it was and the
  run has left every instruction of the module as it was; if Coverage is not in the set,
  the counter is as it was and the run has left the attachment of every function as it was.
  The set has no duplicates, and the entry points, section markers and constructor and
  destructor entries created are exactly those of the kinds in the set, in its order.
\<close>

theorem kind_set_matches_attached_records:
  assumes "run K Options Mod st0 = (changed, M', st')"
  shows "(MetadataInfo_Atomics \<in> set (MIS st') \<longleftrightarrow>
            NumMetadataAtomics st0 < NumMetadataAtomics st') \<and>
         (MetadataInfo_Covered \<in> set (MIS st') \<longleftrightarrow>
            NumMetadataCovered st0 < NumMetadataCovered st') \<and>
         (MetadataInfo_Atomics \<in> set (MIS st') \<longrightarrow>
            (\<exists>F' \<in> set (Functions M'). \<exists>I \<in> set (concat (blocks F')).
               MD_pcsections (props I) = Some (atomicsRecord K))) \<and>
         (MetadataInfo_Covered \<in> set (MIS st') \<longrightarrow>
            (\<exists>F' \<in> set (Functions M'). \<exists>m. F_MD_pcsections F' = Some (coverageRecord K m))) \<and>
         (MetadataInfo_Atomics \<notin> set (MIS st') \<longrightarrow>
            map blocks (Functions M') = map blocks (Functions Mod)) \<and>
         (MetadataInfo_Covered \<notin> set (MIS st') \<longrightarrow>
            map F_MD_pcsections (Functions M') = map F_MD_pcsections (Functions Mod)) \<and>
         distinct (MIS st') \<and>
         entry_points M' = entry_points Mod @
           concat (map (registrationPair K (getVersion Mod) (supportsCOMDAT Mod)) (MIS st')) \<and>
         globals M' = globals Mod @ concat (map (sectionMarkers K) (MIS st')) \<and>
         global_ctors M' = global_ctors Mod @ map (ctorEntry (supportsCOMDAT Mod)) (MIS st') \<and>
         global_dtors M' = global_dtors Mod @ map (dtorEntry (supportsCOMDAT Mod)) (MIS st')"
proof -
  note e = run_emits [OF assms]
  note k = runOnFunctions_kinds [OF e(1)]
  note f = runOnFunctions_frame [OF e(1)]
  have fa: "MetadataInfo_Atomics \<notin> set (MIS st') \<longrightarrow>
            map blocks (Functions M') = map blocks (Functions Mod)"
    using f by simp
  have fc: "MetadataInfo_Covered \<notin> set (MIS st') \<longrightarrow>
            map F_MD_pcsections (Functions M') = map F_MD_pcsections (Functions Mod)"
    using f by simp
  have d: "distinct (MIS st')"
    using e(1) by (rule runOnFunctions_distinct) simp
  have a: "MetadataInfo_Atomics \<in> set (MIS st') \<longleftrightarrow>
            NumMetadataAtomics st0 < NumMetadataAtomics st'"
    using k by simp
  have c: "MetadataInfo_Covered \<in> set (MIS st') \<longleftrightarrow>
            NumMetadataCovered st0 < NumMetadataCovered st'"
    using k by simp
  have ra: "MetadataInfo_Atomics \<in> set (MIS st') \<longrightarrow>
            (\<exists>F' \<in> set (Functions M'). \<exists>I \<in> set (concat (blocks F')).
               MD_pcsections (props I) = Some (atomicsRecord K))"
    using k a by simp
  have rc: "MetadataInfo_Covered \<in> set (MIS st') \<longrightarrow>
            (\<exists>F' \<in> set (Functions M'). \<exists>m. F_MD_pcsections F' = Some (coverageRecord K m))"
    using k c by simp
  from a c ra rc fa fc d e(3,4,5,6) show ?thesis by simp
qed

theorem kind_set_matches_attached_records_witness:
  "run example_consts only_atomics
     (example_module [example_function [plain_load, ret_inst]]) initial_state
   = (True,
      fst (snd (run example_consts only_atomics
        (example_module [example_function [plain_load, ret_inst]]) initial_state)),
      \<lparr>MIS = [MetadataInfo_Covered], NumMetadataCovered = 1, NumMetadataAtomics = 0,
       NumMetadataUAR = 0\<rparr>) \<and>
   map ep_name (entry_points (fst (snd (run example_consts only_atomics
        (example_module [example_function [plain_load, ret_inst]]) initial_state))))
   = [''__sanitizer_metadata_covered.module_ctor'', ''__sanitizer_metadata_covered.module_dtor''] \<and>
   map blocks (Functions (fst (snd (run example_consts only_atomics
        (example_module [example_function [plain_load, ret_inst]]) initial_state))))
   = [[[plain_load, ret_inst]]]"
proof -
  have r: "run example_consts only_atomics
     (example_module [example_function [plain_load, ret_inst]]) initial_state
   = (True,
      fst (snd (run example_consts only_atomics
        (example_module [example_function [plain_load, ret_inst]]) initial_state)),
      \<lparr>MIS = [MetadataInfo_Covered], NumMetadataCovered = 1, NumMetadataAtomics = 0,
       NumMetadataUAR = 0\<rparr>)"
    by (simp add: eval_defs)
  from kind_set_matches_attached_records [OF r] r show ?thesis
    by (simp add: registrationPair_def example_module_def example_function_def)
qed

end
